theory Spec2Isabelle
  imports Main "HOL-Library.Multiset"
begin

section \<open>Data model of \<^verbatim>\<open>src/Tableview.tsx\<close>\<close>

text \<open>
  The component keeps a grid of cells in React state and mutates it through callbacks.
  Each callback is embedded as a function from the component state to the next state.
  JavaScript numbers that hold row and column indices are integers here.

  Cell identifiers are the strings \<^verbatim>\<open>cell_${row}_${col}\<close>. Every identifier that reaches
  the selection is produced by that template from two integers, and every reader takes it
  apart again with \<^verbatim>\<open>id.replace("cell_", "").split("_")\<close> followed by \<^verbatim>\<open>parseInt\<close>.
  The identifier is therefore modelled by the pair it renders: \<open>Cell_ref r c\<close> stands for
  \<^verbatim>\<open>cell_r_c\<close>, and parsing is the projection to \<open>(r, c)\<close>.
\<close>

datatype cell_ref = Cell_ref int int

fun position_of :: "cell_ref \<Rightarrow> int \<times> int" where
  "position_of (Cell_ref r c) = (r, c)"

record CellObject =
  cell_id :: cell_ref
  sequenceNumber :: string
  isBlocked :: bool
  isMerged :: bool
  mergeId :: string
  isBlank :: bool
  rowIndex :: int
  columnIndex :: int
  checked :: bool
  isSelected :: bool
  rowSpan :: int
  colSpan :: int
  isHidden :: bool

text \<open>A row: \<open>row_id n\<close> stands for the string \<^verbatim>\<open>row_n\<close>; \<open>row_rowIndex\<close> is the
  field \<^verbatim>\<open>rowIndex\<close> of \<^verbatim>\<open>TableRow\<close>.\<close>

record TableRow =
  row_id :: int
  row_rowIndex :: int
  cells :: "CellObject list"

text \<open>The four counters that \<^verbatim>\<open>updateCellStatistics\<close> publishes.\<close>

record CellStatistics =
  totalCells :: nat
  blockedCells :: nat
  mergedCells :: nat
  blankCells :: nat

subsection \<open>The snapshot as parsed JSON\<close>

text \<open>
  \<^verbatim>\<open>JSON.parse\<close> returns an object typed \<^verbatim>\<open>TableData\<close> whose fields may be
  absent; the loader defends against absence field by field. A field is \<open>None\<close> when it is
  absent and \<open>Some v\<close> when it is present with a value of its declared type.
  \<^verbatim>\<open>JSON.stringify\<close> followed by \<^verbatim>\<open>JSON.parse\<close> is the identity on such data.
  The \<^verbatim>\<open>metadata.updatedAt\<close> time stamp is written and never read, and is left out.
\<close>

record CellJson =
  j_id :: "cell_ref option"
  j_sequenceNumber :: "string option"
  j_isBlocked :: "bool option"
  j_isMerged :: "bool option"
  j_mergeId :: "string option"
  j_isBlank :: "bool option"
  j_rowIndex :: "int option"
  j_columnIndex :: "int option"
  j_checked :: "bool option"
  j_isSelected :: "bool option"
  j_rowSpan :: "int option"
  j_colSpan :: "int option"
  j_isHidden :: "bool option"

record RowJson =
  j_row_id :: "int option"
  j_row_rowIndex :: "int option"
  j_cells :: "CellJson list option"

record TableData =
  j_rows :: "int option"
  j_columns :: "int option"
  j_tableRows :: "RowJson list option"

subsection \<open>Component state\<close>

text \<open>
  \<open>selectedCells\<close>, \<open>dragSelection\<close> and \<open>preSelection\<close> are JavaScript \<^verbatim>\<open>Set\<close>s:
  duplicate free and iterated in insertion order, hence lists built with \<open>set_add\<close>.
  \<open>alerts\<close> collects the messages passed to \<^verbatim>\<open>alert\<close>; \<open>tableChangeCalls\<close> and
  \<open>cellClickCalls\<close> count the executions of the host actions \<^verbatim>\<open>onTableChange\<close> and
  \<^verbatim>\<open>onCellClick\<close>; \<open>statistics\<close> and \<open>lastSavedData\<close> hold what was last written to the
  host attributes, which are taken to be available.
\<close>

record state =
  rowCount :: int
  columnCount :: int
  tableRows :: "TableRow list"
  selectedCells :: "cell_ref list"
  isSelectionMode :: bool
  isDragging :: bool
  dragStartCell :: "(int \<times> int) option"
  dragSelection :: "cell_ref list"
  preSelection :: "cell_ref list"
  dataLoaded :: bool
  lastSavedData :: "TableData option"
  statistics :: "CellStatistics option"
  alerts :: "string list"
  tableChangeCalls :: nat
  cellClickCalls :: nat

text \<open>The properties of the widget that the callbacks read.\<close>

record props =
  autoSave :: bool
  enableCellMerging :: bool
  enableCellBlanking :: bool

definition isSelectionAllowed :: "props \<Rightarrow> bool" where
  "isSelectionAllowed p = (enableCellMerging p \<or> enableCellBlanking p)"

subsection \<open>Sets in insertion order\<close>

definition set_add :: "'a \<Rightarrow> 'a list \<Rightarrow> 'a list" where
  "set_add x s = (if x \<in> set s then s else s @ [x])"

definition set_delete :: "'a \<Rightarrow> 'a list \<Rightarrow> 'a list" where
  "set_delete x s = removeAll x s"

subsection \<open>Looking cells up and writing to them\<close>

text \<open>
  \<^verbatim>\<open>rows.find(r => r.rowIndex === r0)?.cells.find(c => c.columnIndex === c0)\<close>:
  the first row with that index, then the first cell of that row with that column index.
\<close>

definition find_cell :: "TableRow list \<Rightarrow> int \<Rightarrow> int \<Rightarrow> CellObject option" where
  "find_cell rows r c =
     (case List.find (\<lambda>row. row_rowIndex row = r) rows of
        None \<Rightarrow> None
      | Some row \<Rightarrow> List.find (\<lambda>cl. columnIndex cl = c) (cells row))"

text \<open>An assignment to fields of the object that \<^verbatim>\<open>find\<close> returned changes the first
  match in place and nothing else.\<close>

fun map_first :: "('a \<Rightarrow> bool) \<Rightarrow> ('a \<Rightarrow> 'a) \<Rightarrow> 'a list \<Rightarrow> 'a list" where
  "map_first P f [] = []"
| "map_first P f (x # xs) = (if P x then f x # xs else x # map_first P f xs)"

definition modify_cell ::
  "int \<Rightarrow> int \<Rightarrow> (CellObject \<Rightarrow> CellObject) \<Rightarrow> TableRow list \<Rightarrow> TableRow list" where
  "modify_cell r c f rows =
     map_first (\<lambda>row. row_rowIndex row = r)
       (\<lambda>row. row\<lparr>cells := map_first (\<lambda>cl. columnIndex cl = c) f (cells row)\<rparr>) rows"

text \<open>\<^verbatim>\<open>newRows.forEach(row => row.cells.forEach(cell => ...))\<close> with a body that
  assigns to fields of \<^verbatim>\<open>cell\<close>.\<close>

definition forEach_cell :: "(CellObject \<Rightarrow> CellObject) \<Rightarrow> TableRow list \<Rightarrow> TableRow list" where
  "forEach_cell f rows = map (\<lambda>row. row\<lparr>cells := map f (cells row)\<rparr>) rows"

definition all_cells :: "TableRow list \<Rightarrow> CellObject list" where
  "all_cells rows = concat (map cells rows)"

subsection \<open>Statistics\<close>

definition updateCellStatistics :: "TableRow list \<Rightarrow> CellStatistics" where
  "updateCellStatistics rows =
     \<lparr> totalCells = foldl (\<lambda>sum row. sum + length (cells row)) 0 rows,
       blockedCells = foldl (\<lambda>sum row. sum + length (filter (\<lambda>c. isBlocked c) (cells row))) 0 rows,
       mergedCells =
         foldl (\<lambda>sum row. sum + length (filter (\<lambda>c. isMerged c \<and> \<not> isHidden c) (cells row))) 0 rows,
       blankCells =
         foldl (\<lambda>sum row. sum + length (filter (\<lambda>c. isBlank c \<and> \<not> isHidden c) (cells row))) 0 rows \<rparr>"

subsection \<open>Saving: the encoder\<close>

definition encode_cell :: "CellObject \<Rightarrow> CellJson" where
  "encode_cell c =
     \<lparr> j_id = Some (cell_id c), j_sequenceNumber = Some (sequenceNumber c),
       j_isBlocked = Some (isBlocked c), j_isMerged = Some (isMerged c),
       j_mergeId = Some (mergeId c), j_isBlank = Some (isBlank c),
       j_rowIndex = Some (rowIndex c), j_columnIndex = Some (columnIndex c),
       j_checked = Some (checked c), j_isSelected = Some (isSelected c),
       j_rowSpan = Some (rowSpan c), j_colSpan = Some (colSpan c),
       j_isHidden = Some (isHidden c) \<rparr>"

definition encode_row :: "TableRow \<Rightarrow> RowJson" where
  "encode_row row =
     \<lparr> j_row_id = Some (row_id row), j_row_rowIndex = Some (row_rowIndex row),
       j_cells = Some (map encode_cell (cells row)) \<rparr>"

text \<open>The object that \<^verbatim>\<open>saveToBackend\<close> serialises.\<close>

definition encode :: "TableRow list \<Rightarrow> int \<Rightarrow> int \<Rightarrow> TableData" where
  "encode rows rowCnt colCnt =
     \<lparr> j_rows = Some rowCnt, j_columns = Some colCnt, j_tableRows = Some (map encode_row rows) \<rparr>"

definition saveToBackend :: "TableRow list \<Rightarrow> int \<Rightarrow> int \<Rightarrow> state \<Rightarrow> state" where
  "saveToBackend rows rowCnt colCnt s =
     s\<lparr> lastSavedData := Some (encode rows rowCnt colCnt),
        statistics := Some (updateCellStatistics rows),
        tableChangeCalls := Suc (tableChangeCalls s) \<rparr>"

subsection \<open>Loading: the decoder\<close>

text \<open>JavaScript's \<^verbatim>\<open>v || d\<close> on an optional field: the default is taken when the field
  is absent and also when its value is falsy (the empty string, \<^verbatim>\<open>false\<close>, \<^verbatim>\<open>0\<close>).\<close>

definition or_string :: "string option \<Rightarrow> string \<Rightarrow> string" where
  "or_string v d = (case v of None \<Rightarrow> d | Some x \<Rightarrow> if x = [] then d else x)"

definition or_bool :: "bool option \<Rightarrow> bool \<Rightarrow> bool" where
  "or_bool v d = (case v of None \<Rightarrow> d | Some x \<Rightarrow> if x then x else d)"

definition or_int :: "int option \<Rightarrow> int \<Rightarrow> int" where
  "or_int v d = (case v of None \<Rightarrow> d | Some x \<Rightarrow> if x = 0 then d else x)"

definition validate_cell :: "int \<Rightarrow> int \<Rightarrow> CellJson \<Rightarrow> CellObject" where
  "validate_cell rowIdx colIdx cell =
     (let seqNum = or_string (j_sequenceNumber cell) ''-'';
          checkedState = or_bool (j_checked cell) False
      in \<lparr> cell_id = Cell_ref rowIdx colIdx,
           sequenceNumber = seqNum,
           isBlocked = (case j_isBlocked cell of Some b \<Rightarrow> b | None \<Rightarrow> checkedState),
           isMerged = or_bool (j_isMerged cell) False,
           mergeId = or_string (j_mergeId cell) [],
           isBlank = or_bool (j_isBlank cell) False,
           rowIndex = rowIdx,
           columnIndex = colIdx,
           checked = checkedState,
           isSelected = False,
           rowSpan = or_int (j_rowSpan cell) 1,
           colSpan = or_int (j_colSpan cell) 1,
           isHidden = or_bool (j_isHidden cell) False \<rparr>)"

text \<open>\<^verbatim>\<open>row.cells.map\<close> throws when \<^verbatim>\<open>cells\<close> is absent; the exception is the
  value \<open>None\<close>, which the caller's \<^verbatim>\<open>catch\<close> turns into "nothing loaded".\<close>

definition validate_row :: "nat \<Rightarrow> RowJson \<Rightarrow> TableRow option" where
  "validate_row idx row =
     (let rowIdx = int idx + 1
      in case j_cells row of
           None \<Rightarrow> None
         | Some cs \<Rightarrow>
             Some \<lparr> row_id = rowIdx, row_rowIndex = rowIdx,
                    cells = map (\<lambda>(cIdx, cell). validate_cell rowIdx (int cIdx + 1) cell)
                              (enumerate 0 cs) \<rparr>)"

definition validate_rows :: "RowJson list \<Rightarrow> TableRow list option" where
  "validate_rows trs = those (map (\<lambda>(idx, row). validate_row idx row) (enumerate 0 trs))"

text \<open>
  The body of the loading effect once its two gates (a save in flight, data identical to
  the last save) have let the incoming value through. \<open>None\<close> is an empty or unparseable
  attribute value.
\<close>

definition loadData :: "TableData option \<Rightarrow> state \<Rightarrow> state" where
  "loadData incoming s =
     (case incoming of
        None \<Rightarrow> s
      | Some tableData \<Rightarrow>
          (case (j_tableRows tableData, j_rows tableData, j_columns tableData) of
             (Some trs, Some rws, Some cols) \<Rightarrow>
               if rws > 0 \<and> cols > 0 then
                 (case validate_rows trs of
                    None \<Rightarrow> s
                  | Some validatedRows \<Rightarrow>
                      s\<lparr> rowCount := rws, columnCount := cols,
                         tableRows := validatedRows,
                         selectedCells := [], isSelectionMode := False,
                         dataLoaded := True,
                         statistics := Some (updateCellStatistics validatedRows),
                         lastSavedData := Some tableData \<rparr>)
               else s
           | _ \<Rightarrow> s))"

text \<open>The two effects that follow the host's row and column count attributes, after
  their shared \<^verbatim>\<open>ignoreAttributeUpdateRef\<close> gate; \<open>isUserInput\<close> is the value of
  \<^verbatim>\<open>isUserInputRef\<close>.\<close>

definition rowCountAttributeEffect :: "bool \<Rightarrow> int \<Rightarrow> state \<Rightarrow> state" where
  "rowCountAttributeEffect isUserInput v s =
     (if v > 0 \<and> v \<le> 100 \<and> v \<noteq> rowCount s \<and> \<not> isUserInput then s\<lparr>rowCount := v\<rparr> else s)"

definition columnCountAttributeEffect :: "bool \<Rightarrow> int \<Rightarrow> state \<Rightarrow> state" where
  "columnCountAttributeEffect isUserInput v s =
     (if v > 0 \<and> v \<le> 100 \<and> v \<noteq> columnCount s \<and> \<not> isUserInput
      then s\<lparr>columnCount := v\<rparr> else s)"

subsection \<open>Creating and growing the table\<close>

definition default_cell :: "int \<Rightarrow> int \<Rightarrow> CellObject" where
  "default_cell rowIdx colIdx =
     \<lparr> cell_id = Cell_ref rowIdx colIdx, sequenceNumber = ''-'', isBlocked = False,
       isMerged = False, mergeId = [], isBlank = False, rowIndex = rowIdx,
       columnIndex = colIdx, checked = False, isSelected = False, rowSpan = 1, colSpan = 1,
       isHidden = False \<rparr>"

definition createNewTable :: "int \<Rightarrow> int \<Rightarrow> state \<Rightarrow> state" where
  "createNewTable rws cols s =
     (if rws \<le> 0 \<or> cols \<le> 0 then s
      else
        let newTableRows =
              map (\<lambda>idx. let rowIdx = int idx + 1
                         in \<lparr> row_id = rowIdx, row_rowIndex = rowIdx,
                              cells = map (\<lambda>cIdx. default_cell rowIdx (int cIdx + 1))
                                        [0..<nat cols] \<rparr>)
                [0..<nat rws]
        in saveToBackend newTableRows rws cols
             (s\<lparr> tableRows := newTableRows, selectedCells := [], isSelectionMode := False,
                 dataLoaded := True \<rparr>))"

text \<open>
  The counts a component starts with: \<^verbatim>\<open>getInitialRows\<close> and \<^verbatim>\<open>getInitialColumns\<close> take
  the host attribute's value when it is available (\<open>Some v\<close>; the value is a \<^verbatim>\<open>Big\<close>
  object and so always truthy) and 3 otherwise. The mount effect then generates a table of
  these counts unless data was loaded or rows exist.
\<close>

definition getInitialRows :: "int option \<Rightarrow> int" where
  "getInitialRows rowCountAttribute = (case rowCountAttribute of Some v \<Rightarrow> v | None \<Rightarrow> 3)"

definition getInitialColumns :: "int option \<Rightarrow> int" where
  "getInitialColumns columnCountAttribute = (case columnCountAttribute of Some v \<Rightarrow> v | None \<Rightarrow> 3)"

definition mountEffect :: "state \<Rightarrow> state" where
  "mountEffect s =
     (if \<not> dataLoaded s \<and> length (tableRows s) = 0
      then createNewTable (rowCount s) (columnCount s) s else s)"

text \<open>The \<^verbatim>\<open>isNaN\<close> test of \<^verbatim>\<open>applyDimensions\<close> has no counterpart: the counts are
  integers.\<close>

definition applyDimensions :: "state \<Rightarrow> state" where
  "applyDimensions s =
     (if rowCount s \<le> 0 \<or> columnCount s \<le> 0
      then s\<lparr>alerts := alerts s @ [''Rows and columns must be positive numbers'']\<rparr>
      else if rowCount s > 100 \<or> columnCount s > 100
      then s\<lparr>alerts := alerts s @ [''Maximum 100 rows and 100 columns'']\<rparr>
      else createNewTable (rowCount s) (columnCount s) s)"

definition addRow :: "state \<Rightarrow> state" where
  "addRow s =
     (let newRowCount = rowCount s + 1
      in if newRowCount > 100 then s\<lparr>alerts := alerts s @ [''Maximum 100 rows'']\<rparr>
         else
           let newRows = tableRows s @
                 [\<lparr> row_id = newRowCount, row_rowIndex = newRowCount,
                     cells = map (\<lambda>cIdx. default_cell newRowCount (int cIdx + 1))
                               [0..<nat (columnCount s)] \<rparr>]
           in saveToBackend newRows newRowCount (columnCount s)
                (s\<lparr>rowCount := newRowCount, tableRows := newRows\<rparr>))"

definition addColumn :: "state \<Rightarrow> state" where
  "addColumn s =
     (let newColCount = columnCount s + 1
      in if newColCount > 100 then s\<lparr>alerts := alerts s @ [''Maximum 100 columns'']\<rparr>
         else
           let newRows =
                 map (\<lambda>row. row\<lparr>cells := cells row @ [default_cell (row_rowIndex row) newColCount]\<rparr>)
                   (tableRows s)
           in saveToBackend newRows (rowCount s) newColCount
                (s\<lparr>columnCount := newColCount, tableRows := newRows\<rparr>))"

subsection \<open>Editing a value, toggling a checkbox\<close>

definition handleCellValueChange :: "props \<Rightarrow> int \<Rightarrow> int \<Rightarrow> string \<Rightarrow> state \<Rightarrow> state" where
  "handleCellValueChange p rowIdx colIdx newValue s =
     (let s' =
        (case find_cell (tableRows s) rowIdx colIdx of
           None \<Rightarrow> s
         | Some targetCell \<Rightarrow>
             let rows1 = modify_cell rowIdx colIdx (\<lambda>c. c\<lparr>sequenceNumber := newValue\<rparr>)
                           (tableRows s);
                 newRows =
                   (if mergeId targetCell \<noteq> []
                    then forEach_cell
                           (\<lambda>cell. if mergeId cell = mergeId targetCell
                                    then cell\<lparr>sequenceNumber := newValue\<rparr> else cell) rows1
                    else rows1);
                 s1 = s\<lparr>tableRows := newRows, statistics := Some (updateCellStatistics newRows)\<rparr>
             in if autoSave p then saveToBackend newRows (rowCount s) (columnCount s) s1 else s1)
      in s'\<lparr>cellClickCalls := Suc (cellClickCalls s')\<rparr>)"

definition handleCheckboxChange :: "props \<Rightarrow> int \<Rightarrow> int \<Rightarrow> state \<Rightarrow> state" where
  "handleCheckboxChange p rowIdx colIdx s =
     (let s' =
        (case find_cell (tableRows s) rowIdx colIdx of
           None \<Rightarrow> s
         | Some targetCell \<Rightarrow>
             let newChecked = (\<not> checked targetCell);
                 rows1 = modify_cell rowIdx colIdx
                           (\<lambda>c. c\<lparr>checked := newChecked, isBlocked := newChecked,
                                  isSelected := newChecked\<rparr>)
                           (tableRows s);
                 newRows =
                   (if mergeId targetCell \<noteq> []
                    then forEach_cell
                           (\<lambda>cell. if mergeId cell = mergeId targetCell
                                    then cell\<lparr>checked := newChecked, isBlocked := newChecked,
                                              isSelected := newChecked\<rparr>
                                    else cell) rows1
                    else rows1);
                 s1 = s\<lparr>tableRows := newRows, statistics := Some (updateCellStatistics newRows)\<rparr>
             in if autoSave p then saveToBackend newRows (rowCount s) (columnCount s) s1 else s1)
      in s'\<lparr>cellClickCalls := Suc (cellClickCalls s')\<rparr>)"

subsection \<open>Selection\<close>

definition rect_positions :: "int \<Rightarrow> int \<Rightarrow> int \<Rightarrow> int \<Rightarrow> (int \<times> int) list" where
  "rect_positions minRow maxRow minCol maxCol =
     concat (map (\<lambda>r. map (\<lambda>c. (r, c)) [minCol..maxCol]) [minRow..maxRow])"

definition getRectangularSelection :: "int \<Rightarrow> int \<Rightarrow> int \<Rightarrow> int \<Rightarrow> cell_ref list" where
  "getRectangularSelection startRow startCol endRow endCol =
     (let minRow = min startRow endRow; maxRow = max startRow endRow;
          minCol = min startCol endCol; maxCol = max startCol endCol
      in foldl (\<lambda>selection (r, c). set_add (Cell_ref r c) selection) []
           (rect_positions minRow maxRow minCol maxCol))"

text \<open>\<open>shiftKey\<close> and \<open>targetIsInput\<close> are what the handler reads from the mouse event.\<close>

definition handleCellMouseDown :: "props \<Rightarrow> int \<Rightarrow> int \<Rightarrow> bool \<Rightarrow> bool \<Rightarrow> state \<Rightarrow> state" where
  "handleCellMouseDown p rowIdx colIdx shiftKey targetIsInput s =
     (if \<not> isSelectionAllowed p then s
      else if targetIsInput then s
      else
        let cellId = Cell_ref rowIdx colIdx
        in s\<lparr> preSelection := selectedCells s,
              isDragging := True,
              dragStartCell := Some (rowIdx, colIdx),
              isSelectionMode := True,
              dragSelection := [cellId],
              selectedCells := (if shiftKey then set_add cellId (selectedCells s) else [cellId]) \<rparr>)"

definition handleCellMouseEnter :: "int \<Rightarrow> int \<Rightarrow> state \<Rightarrow> state" where
  "handleCellMouseEnter rowIdx colIdx s =
     (if \<not> isDragging s then s
      else case dragStartCell s of
             None \<Rightarrow> s
           | Some (startRow, startCol) \<Rightarrow>
               let dragged = getRectangularSelection startRow startCol rowIdx colIdx;
                   final = foldl (\<lambda>f c. set_add c f) (preSelection s) dragged
               in s\<lparr>dragSelection := dragged, selectedCells := final\<rparr>)"

definition onMouseUp :: "state \<Rightarrow> state" where
  "onMouseUp s =
     (if isDragging s then s\<lparr>isDragging := False, dragStartCell := None, preSelection := []\<rparr>
      else s)"

definition handleCellClick :: "props \<Rightarrow> int \<Rightarrow> int \<Rightarrow> bool \<Rightarrow> state \<Rightarrow> state" where
  "handleCellClick p rowIdx colIdx isCtrlOrCmd s =
     (if \<not> isSelectionAllowed p then s\<lparr>cellClickCalls := Suc (cellClickCalls s)\<rparr>
      else if isDragging s then s
      else
        let cellId = Cell_ref rowIdx colIdx;
            s1 = s\<lparr>cellClickCalls := Suc (cellClickCalls s)\<rparr>;
            sel = selectedCells s
        in if isSelectionMode s then
             s1\<lparr>selectedCells :=
                  (if isCtrlOrCmd
                   then (if cellId \<in> set sel \<and> length sel > 1 then set_delete cellId sel
                         else set_add cellId sel)
                   else (if cellId \<in> set sel \<and> length sel = 1 then sel
                         else set_add cellId sel))\<rparr>
           else s1\<lparr>selectedCells := [cellId], isSelectionMode := True\<rparr>)"

definition selectAllCells :: "props \<Rightarrow> state \<Rightarrow> state" where
  "selectAllCells p s =
     (if \<not> isSelectionAllowed p then s
      else s\<lparr> selectedCells :=
                 foldl (\<lambda>all cell. if \<not> isHidden cell then set_add (cell_id cell) all else all) []
                   (all_cells (tableRows s)),
               isSelectionMode := True \<rparr>)"

definition clearSelection :: "state \<Rightarrow> state" where
  "clearSelection s = s\<lparr>selectedCells := [], isSelectionMode := False\<rparr>"

subsection \<open>Merging and unmerging\<close>

text \<open>A number inside a template literal is printed in decimal.\<close>

definition digit_char :: "nat \<Rightarrow> char" where
  "digit_char d = ''0123456789'' ! (d mod 10)"

function string_of_nat :: "nat \<Rightarrow> string" where
  "string_of_nat n =
     (if n < 10 then [digit_char n] else string_of_nat (n div 10) @ [digit_char (n mod 10)])"
  by pat_completeness auto
termination
  by (relation "measure (\<lambda>n. n)") auto

declare string_of_nat.simps [simp del]

definition string_of_int :: "int \<Rightarrow> string" where
  "string_of_int i = (if i < 0 then CHR ''-'' # string_of_nat (nat (- i)) else string_of_nat (nat i))"

definition createMergeId :: "int \<Rightarrow> int \<Rightarrow> int \<Rightarrow> int \<Rightarrow> string" where
  "createMergeId r1 c1 r2 c2 =
     string_of_int r1 @ string_of_int c1 @ string_of_int r2 @ string_of_int c2"

text \<open>\<^verbatim>\<open>Math.min(...xs)\<close> and \<^verbatim>\<open>Math.max(...xs)\<close>. Both are called only after the
  selection was found to hold two or more identifiers, so the value at the empty list
  (\<^verbatim>\<open>Infinity\<close> in JavaScript) is never read.\<close>

fun Math_min :: "int list \<Rightarrow> int" where
  "Math_min [] = 0"
| "Math_min (x # xs) = foldl min x xs"

fun Math_max :: "int list \<Rightarrow> int" where
  "Math_max [] = 0"
| "Math_max (x # xs) = foldl max x xs"

text \<open>The reset that both \<^verbatim>\<open>mergeCells\<close> (on groups it overlaps) and
  \<^verbatim>\<open>unmergeCells\<close> apply to every cell carrying a given merge id.\<close>

definition dissolve_group :: "string \<Rightarrow> TableRow list \<Rightarrow> TableRow list" where
  "dissolve_group oldId rows =
     forEach_cell
       (\<lambda>c2. if mergeId c2 = oldId
             then c2\<lparr>isMerged := False, rowSpan := 1, colSpan := 1, isHidden := False, mergeId := []\<rparr>
             else c2) rows"

definition dissolve_at :: "TableRow list \<Rightarrow> int \<times> int \<Rightarrow> TableRow list" where
  "dissolve_at rows p =
     (case find_cell rows (fst p) (snd p) of
        None \<Rightarrow> rows
      | Some cell \<Rightarrow>
          if isMerged cell \<and> mergeId cell \<noteq> [] then dissolve_group (mergeId cell) rows else rows)"

text \<open>
  The body of the second loop of \<^verbatim>\<open>mergeCells\<close>. \<^verbatim>\<open>topLeft\<close> is an alias of the
  anchor cell, which the loop writes first; the four fields the loop reads from it
  (\<^verbatim>\<open>sequenceNumber\<close>, \<^verbatim>\<open>checked\<close>, \<^verbatim>\<open>isBlocked\<close>, \<^verbatim>\<open>isBlank\<close>) are assigned their own
  values there, so reading them once before the loop gives the same result.
\<close>

definition merge_write ::
  "CellObject \<Rightarrow> string \<Rightarrow> int \<Rightarrow> int \<Rightarrow> int \<Rightarrow> int \<Rightarrow> int \<Rightarrow> int \<Rightarrow> CellObject \<Rightarrow> CellObject" where
  "merge_write topLeft mid minRow maxRow minCol maxCol r c cell =
     (let cell1 = cell\<lparr> sequenceNumber := sequenceNumber topLeft,
                       checked := checked topLeft,
                       isBlocked := isBlocked topLeft,
                       isSelected := isBlocked topLeft,
                       isBlank := isBlank topLeft,
                       isMerged := True,
                       mergeId := mid \<rparr>
      in if r = minRow \<and> c = minCol
         then cell1\<lparr>rowSpan := maxRow - minRow + 1, colSpan := maxCol - minCol + 1, isHidden := False\<rparr>
         else cell1\<lparr>rowSpan := 1, colSpan := 1, isHidden := True\<rparr>)"

definition mergeCells :: "state \<Rightarrow> state" where
  "mergeCells s =
     (if length (selectedCells s) < 2 then s
      else
        let positions = map position_of (selectedCells s);
            minRow = Math_min (map fst positions);
            maxRow = Math_max (map fst positions);
            minCol = Math_min (map snd positions);
            maxCol = Math_max (map snd positions)
        in if int (length (selectedCells s)) \<noteq> (maxRow - minRow + 1) * (maxCol - minCol + 1)
           then s\<lparr>alerts := alerts s @ [''Please select a rectangular area to merge'']\<rparr>
           else
             let region = rect_positions minRow maxRow minCol maxCol;
                 rows1 = foldl dissolve_at (tableRows s) region;
                 mid = createMergeId minRow minCol maxRow maxCol;
                 s1 = (case find_cell rows1 minRow minCol of
                         None \<Rightarrow> s
                       | Some topLeft \<Rightarrow>
                           let newRows =
                                 foldl (\<lambda>rows (r, c).
                                          modify_cell r c
                                            (merge_write topLeft mid minRow maxRow minCol maxCol r c)
                                            rows)
                                   rows1 region
                           in saveToBackend newRows (rowCount s) (columnCount s)
                                (s\<lparr>tableRows := newRows\<rparr>))
             in s1\<lparr>selectedCells := [Cell_ref minRow minCol]\<rparr>)"

definition unmergeCells :: "state \<Rightarrow> state" where
  "unmergeCells s =
     (case selectedCells s of
        [] \<Rightarrow> s
      | cellId # _ \<Rightarrow>
          (case position_of cellId of
             (rowIdx, colIdx) \<Rightarrow>
               (case find_cell (tableRows s) rowIdx colIdx of
                  None \<Rightarrow> s
                | Some target \<Rightarrow>
                    if \<not> isMerged target then s
                    else
                      let newRows = dissolve_group (mergeId target) (tableRows s)
                      in saveToBackend newRows (rowCount s) (columnCount s)
                           (s\<lparr>tableRows := newRows\<rparr>))))"

subsection \<open>Blanking and unblanking\<close>

text \<open>One pass of the loop over the selected identifiers; \<open>v\<close> is the value written to
  \<^verbatim>\<open>isBlank\<close>: \<^verbatim>\<open>true\<close> in \<^verbatim>\<open>blankSelectedCells\<close>, \<^verbatim>\<open>false\<close> in
  \<^verbatim>\<open>unblankSelectedCells\<close>, whose bodies are otherwise the same text.\<close>

definition blank_step :: "bool \<Rightarrow> TableRow list \<Rightarrow> cell_ref \<Rightarrow> TableRow list" where
  "blank_step v newRows cellId =
     (case position_of cellId of
        (rowIdx, colIdx) \<Rightarrow>
          (case find_cell newRows rowIdx colIdx of
             None \<Rightarrow> newRows
           | Some cell \<Rightarrow>
               if isHidden cell then newRows
               else
                 let rows1 = modify_cell rowIdx colIdx (\<lambda>c. c\<lparr>isBlank := v\<rparr>) newRows
                 in if mergeId cell \<noteq> []
                    then forEach_cell (\<lambda>c. if mergeId c = mergeId cell then c\<lparr>isBlank := v\<rparr> else c)
                           rows1
                    else rows1))"

definition blankSelectedCells :: "state \<Rightarrow> state" where
  "blankSelectedCells s =
     (if length (selectedCells s) = 0 then s
      else
        let newRows = foldl (blank_step True) (tableRows s) (selectedCells s)
        in (saveToBackend newRows (rowCount s) (columnCount s) (s\<lparr>tableRows := newRows\<rparr>))
             \<lparr>selectedCells := [], isSelectionMode := False\<rparr>)"

definition unblankSelectedCells :: "state \<Rightarrow> state" where
  "unblankSelectedCells s =
     (if length (selectedCells s) = 0 then s
      else
        let newRows = foldl (blank_step False) (tableRows s) (selectedCells s)
        in (saveToBackend newRows (rowCount s) (columnCount s) (s\<lparr>tableRows := newRows\<rparr>))
             \<lparr>selectedCells := [], isSelectionMode := False\<rparr>)"

section \<open>Notions of the specification and example states\<close>

text \<open>The number of cells of the bounding rectangle of a selection, as the specification
  words it: height times width of the smallest rectangle holding every selected position.\<close>

definition bounding_area :: "cell_ref list \<Rightarrow> int" where
  "bounding_area sel =
     (let R = fst ` position_of ` set sel; C = snd ` position_of ` set sel
      in (Max R - Min R + 1) * (Max C - Min C + 1))"

text \<open>The state of a freshly mounted component with the default counts, the same with
  counts taken from the host attributes, and grids generated from it.\<close>

definition init_state :: state where
  "init_state =
     \<lparr> rowCount = 3, columnCount = 3, tableRows = [], selectedCells = [],
       isSelectionMode = False, isDragging = False, dragStartCell = None, dragSelection = [],
       preSelection = [], dataLoaded = False, lastSavedData = None, statistics = None,
       alerts = [], tableChangeCalls = 0, cellClickCalls = 0 \<rparr>"

definition mounted_with :: "int option \<Rightarrow> int option \<Rightarrow> state" where
  "mounted_with rowCountAttribute columnCountAttribute =
     init_state\<lparr> rowCount := getInitialRows rowCountAttribute,
                 columnCount := getInitialColumns columnCountAttribute \<rparr>"

definition grid_2x2 :: state where
  "grid_2x2 = createNewTable 2 2 init_state"

definition single_selection :: state where
  "single_selection = grid_2x2\<lparr>selectedCells := [Cell_ref 1 1], isSelectionMode := True\<rparr>"

text \<open>The L-shaped selection \<open>{(1,1), (1,2), (2,2)}\<close>: three cells in a bounding box of four.\<close>

definition L_selection :: state where
  "L_selection =
     grid_2x2\<lparr>selectedCells := [Cell_ref 1 1, Cell_ref 1 2, Cell_ref 2 2], isSelectionMode := True\<rparr>"

text \<open>The bounding rectangle of a selection, and membership of a position in it.\<close>

definition sel_minRow :: "cell_ref list \<Rightarrow> int" where
  "sel_minRow sel = Min (fst ` position_of ` set sel)"

definition sel_maxRow :: "cell_ref list \<Rightarrow> int" where
  "sel_maxRow sel = Max (fst ` position_of ` set sel)"

definition sel_minCol :: "cell_ref list \<Rightarrow> int" where
  "sel_minCol sel = Min (snd ` position_of ` set sel)"

definition sel_maxCol :: "cell_ref list \<Rightarrow> int" where
  "sel_maxCol sel = Max (snd ` position_of ` set sel)"

definition in_region :: "cell_ref list \<Rightarrow> int \<Rightarrow> int \<Rightarrow> bool" where
  "in_region sel r c =
     (sel_minRow sel \<le> r \<and> r \<le> sel_maxRow sel \<and> sel_minCol sel \<le> c \<and> c \<le> sel_maxCol sel)"

text \<open>Two cells agree on the fields that a merge copies from the top-left cell.\<close>

definition same_payload :: "CellObject \<Rightarrow> CellObject \<Rightarrow> bool" where
  "same_payload a b =
     (sequenceNumber a = sequenceNumber b \<and> checked a = checked b \<and> isBlocked a = isBlocked b
      \<and> isBlank a = isBlank b \<and> columnIndex a = columnIndex b)"

text \<open>A one-row grid as a legacy snapshot can load it: the first cell is blocked but
  not checked. Both cells are selected.\<close>

definition legacy_pair :: state where
  "legacy_pair =
     init_state
       \<lparr> rowCount := 1, columnCount := 2,
         tableRows :=
           [\<lparr> row_id = 1, row_rowIndex = 1,
               cells = [(default_cell 1 1)\<lparr>sequenceNumber := ''a'', isBlocked := True\<rparr>,
                        (default_cell 1 2)\<lparr>sequenceNumber := ''b'', checked := True,
                                            isBlocked := True\<rparr>] \<rparr>],
         selectedCells := [Cell_ref 1 1, Cell_ref 1 2],
         isSelectionMode := True \<rparr>"

text \<open>A cell with its text value erased: two cells that agree after \<open>erase_value\<close>
  differ at most in \<^verbatim>\<open>sequenceNumber\<close>.\<close>

definition erase_value :: "CellObject \<Rightarrow> CellObject" where
  "erase_value x = x\<lparr>sequenceNumber := []\<rparr>"

text \<open>All optional features switched on, and the 2 x 2 grid after merging its first row.\<close>

definition all_on :: props where
  "all_on = \<lparr>autoSave = True, enableCellMerging = True, enableCellBlanking = True\<rparr>"

definition merged_row :: state where
  "merged_row = mergeCells (grid_2x2\<lparr>selectedCells := [Cell_ref 1 1, Cell_ref 1 2]\<rparr>)"

text \<open>
  The component as a state machine: one event per handler that the rendered controls and
  the effects can invoke, and \<open>perform\<close> dispatching an event to its handler.
\<close>

datatype event =
    Mount
  | LoadData "TableData option"
  | RowCountAttribute bool int
  | ColumnCountAttribute bool int
  | GenerateTable
  | AddRow
  | AddColumn
  | EditValue int int string
  | ToggleCheckbox int int
  | MouseDown int int bool bool
  | MouseEnter int int
  | MouseUp
  | Click int int bool
  | SelectAll
  | ClearSelection
  | Merge
  | Unmerge
  | Blank
  | Unblank

fun perform :: "props \<Rightarrow> state \<Rightarrow> event \<Rightarrow> state" where
  "perform p s Mount = mountEffect s"
| "perform p s (LoadData incoming) = loadData incoming s"
| "perform p s (RowCountAttribute isUserInput v) = rowCountAttributeEffect isUserInput v s"
| "perform p s (ColumnCountAttribute isUserInput v) = columnCountAttributeEffect isUserInput v s"
| "perform p s GenerateTable = applyDimensions s"
| "perform p s AddRow = addRow s"
| "perform p s AddColumn = addColumn s"
| "perform p s (EditValue r c v) = handleCellValueChange p r c v s"
| "perform p s (ToggleCheckbox r c) = handleCheckboxChange p r c s"
| "perform p s (MouseDown r c shiftKey targetIsInput) = handleCellMouseDown p r c shiftKey targetIsInput s"
| "perform p s (MouseEnter r c) = handleCellMouseEnter r c s"
| "perform p s MouseUp = onMouseUp s"
| "perform p s (Click r c isCtrlOrCmd) = handleCellClick p r c isCtrlOrCmd s"
| "perform p s SelectAll = selectAllCells p s"
| "perform p s ClearSelection = clearSelection s"
| "perform p s Merge = mergeCells s"
| "perform p s Unmerge = unmergeCells s"
| "perform p s Blank = blankSelectedCells s"
| "perform p s Unblank = unblankSelectedCells s"

text \<open>The published counters are those of the current grid.\<close>

definition statistics_current :: "state \<Rightarrow> bool" where
  "statistics_current s = (statistics s = Some (updateCellStatistics (tableRows s)))"

text \<open>A selected identifier is processed by blank and unblank when it addresses a cell
  that exists and is not hidden.\<close>

definition addresses_visible_cell :: "TableRow list \<Rightarrow> cell_ref \<Rightarrow> bool" where
  "addresses_visible_cell rows ref =
     (case find_cell rows (fst (position_of ref)) (snd (position_of ref)) of
        None \<Rightarrow> False
      | Some cell \<Rightarrow> \<not> isHidden cell)"

text \<open>\<open>blank_rel v a b\<close>: cell \<open>a\<close> is cell \<open>b\<close>, possibly after \<^verbatim>\<open>isBlank\<close> was set to
  \<open>v\<close>; \<open>group_blank v M rows\<close>: every cell with merge id \<open>M\<close> has \<^verbatim>\<open>isBlank = v\<close>.\<close>

definition blank_rel :: "bool \<Rightarrow> CellObject \<Rightarrow> CellObject \<Rightarrow> bool" where
  "blank_rel v a b = (a = b \<or> a = b\<lparr>isBlank := v\<rparr>)"

definition group_blank :: "bool \<Rightarrow> string \<Rightarrow> TableRow list \<Rightarrow> bool" where
  "group_blank v M rows = (\<forall>x \<in> set (all_cells rows). mergeId x = M \<longrightarrow> isBlank x = v)"

text \<open>The merged grid with a hidden member and a plain cell selected, and with the anchor
  selected.\<close>

definition hidden_and_plain :: state where
  "hidden_and_plain = merged_row\<lparr>selectedCells := [Cell_ref 1 2, Cell_ref 2 1], isSelectionMode := True\<rparr>"

definition anchor_selected :: state where
  "anchor_selected = merged_row\<lparr>selectedCells := [Cell_ref 1 1], isSelectionMode := True\<rparr>"

text \<open>A 1 x 1 grid whose text input the user has emptied, with auto-save on.\<close>

definition cleared_cell :: state where
  "cleared_cell =
     handleCellValueChange all_on 1 1 [] (applyDimensions (init_state\<lparr>rowCount := 1, columnCount := 1\<rparr>))"

text \<open>The snapshot of a grid of 101 rows and one column, as the component saves it when
  it is mounted with a host row count of 101.\<close>

definition oversized_snapshot :: TableData where
  "oversized_snapshot = encode (tableRows (createNewTable 101 1 init_state)) 101 1"

text \<open>The fields of a cell that the specification calls persisted.\<close>

definition persisted ::
  "CellObject \<Rightarrow> string \<times> bool \<times> bool \<times> bool \<times> string \<times> bool \<times> int \<times> int \<times> bool" where
  "persisted c =
     (sequenceNumber c, checked c, isBlocked c, isMerged c, mergeId c, isBlank c, rowSpan c,
      colSpan c, isHidden c)"

text \<open>The dimension bounds of the specification.\<close>

definition dimensions_ok :: "state \<Rightarrow> bool" where
  "dimensions_ok s = (1 \<le> rowCount s \<and> rowCount s \<le> 100 \<and> 1 \<le> columnCount s \<and> columnCount s \<le> 100)"

section \<open>Basic facts\<close>

subsection \<open>Minimum and maximum of a list\<close>

lemma foldl_min_Min: "foldl min x xs = Min (insert x (set xs))"
proof (induction xs arbitrary: x)
  case Nil
  then show ?case by simp
next
  case (Cons y ys)
  have "Min (insert (min x y) (set ys)) = Min (insert x (insert y (set ys)))"
    by (cases "ys = []") (simp_all add: min.assoc)
  with Cons show ?case by simp
qed

lemma foldl_max_Max: "foldl max x xs = Max (insert x (set xs))"
proof (induction xs arbitrary: x)
  case Nil
  then show ?case by simp
next
  case (Cons y ys)
  have "Max (insert (max x y) (set ys)) = Max (insert x (insert y (set ys)))"
    by (cases "ys = []") (simp_all add: max.assoc)
  with Cons show ?case by simp
qed

lemma Math_min_Min: "xs \<noteq> [] \<Longrightarrow> Math_min xs = Min (set xs)"
  by (cases xs) (simp_all add: foldl_min_Min)

lemma Math_max_Max: "xs \<noteq> [] \<Longrightarrow> Math_max xs = Max (set xs)"
  by (cases xs) (simp_all add: foldl_max_Max)

lemma merge_bounds:
  assumes "sel \<noteq> []"
  shows "Math_min (map fst (map position_of sel)) = Min (fst ` position_of ` set sel)"
    and "Math_max (map fst (map position_of sel)) = Max (fst ` position_of ` set sel)"
    and "Math_min (map snd (map position_of sel)) = Min (snd ` position_of ` set sel)"
    and "Math_max (map snd (map position_of sel)) = Max (snd ` position_of ` set sel)"
  using assms by (simp_all add: Math_min_Min Math_max_Max image_image)

subsection \<open>Lookup after a write\<close>

lemma find_map_first:
  assumes "\<And>x. key (f x) = key x"
  shows "List.find (\<lambda>x. key x = k') (map_first (\<lambda>x. key x = k) f xs) =
         (if k' = k then map_option f (List.find (\<lambda>x. key x = k) xs)
          else List.find (\<lambda>x. key x = k') xs)"
  using assms by (induction xs) auto

lemma find_cell_modify_cell:
  assumes "\<And>cell. columnIndex (f cell) = columnIndex cell"
  shows "find_cell (modify_cell r c f rows) r' c' =
         (if r' = r \<and> c' = c then map_option f (find_cell rows r c) else find_cell rows r' c')"
proof -
  let ?g = "\<lambda>row. row\<lparr>cells := map_first (\<lambda>cl. columnIndex cl = c) f (cells row)\<rparr>"
  have key: "\<And>row. row_rowIndex (?g row) = row_rowIndex row" by simp
  note cellfind = find_map_first [where key = columnIndex and f = f, OF assms]
  show ?thesis
    unfolding find_cell_def modify_cell_def
    by (simp add: find_map_first [where key = row_rowIndex and f = ?g, OF key] cellfind
        split: option.splits)
qed

lemma find_map_cong_key:
  assumes "\<And>x. key (g x) = key x"
  shows "List.find (\<lambda>x. key x = k) (map g xs) = map_option g (List.find (\<lambda>x. key x = k) xs)"
  using assms by (induction xs) auto

lemma find_cell_forEach_cell:
  assumes "\<And>cell. columnIndex (g cell) = columnIndex cell"
  shows "find_cell (forEach_cell g rows) r c = map_option g (find_cell rows r c)"
proof -
  let ?h = "\<lambda>row. row\<lparr>cells := map g (cells row)\<rparr>"
  have key: "\<And>row. row_rowIndex (?h row) = row_rowIndex row" by simp
  show ?thesis
    unfolding find_cell_def forEach_cell_def
    by (simp add: find_map_cong_key [where key = row_rowIndex and g = ?h, OF key]
        find_map_cong_key [where key = columnIndex and g = g, OF assms]
        split: option.splits)
qed

lemma find_Some_mem: "List.find P xs = Some x \<Longrightarrow> x \<in> set xs \<and> P x"
  by (induction xs) (auto split: if_splits)

lemma find_cell_mem:
  "find_cell rows r c = Some cell \<Longrightarrow> cell \<in> set (all_cells rows) \<and> columnIndex cell = c"
  unfolding find_cell_def all_cells_def
  by (auto split: option.splits dest!: find_Some_mem)

lemma alerts_grid_2x2: "alerts grid_2x2 = []"
  by (simp add: grid_2x2_def createNewTable_def saveToBackend_def init_state_def Let_def)

subsection \<open>Rectangles\<close>

lemma set_rect_positions:
  "set (rect_positions a b c d) = {(r, k). a \<le> r \<and> r \<le> b \<and> c \<le> k \<and> k \<le> d}"
  unfolding rect_positions_def by auto

lemma distinct_rect_positions: "distinct (rect_positions a b c d)"
proof (cases "c \<le> d")
  case True
  then have "inj_on (\<lambda>r. map (\<lambda>k. (r, k)) [c..d]) (set [a..b])"
    by (auto simp: inj_on_def)
  then have "distinct (map (\<lambda>r. map (\<lambda>k. (r, k)) [c..d]) [a..b])"
    by (simp add: distinct_map)
  then show ?thesis
    unfolding rect_positions_def
    by (rule distinct_concat) (auto simp: distinct_map inj_on_def)
next
  case False
  then have "set (rect_positions a b c d) = {}"
    by (auto simp: rect_positions_def)
  then show ?thesis by simp
qed

lemma bounding_area_alt:
  "bounding_area sel =
     (sel_maxRow sel - sel_minRow sel + 1) * (sel_maxCol sel - sel_minCol sel + 1)"
  by (simp add: bounding_area_def sel_minRow_def sel_maxRow_def sel_minCol_def sel_maxCol_def Let_def)

lemma anchor_in_region: "sel \<noteq> [] \<Longrightarrow> in_region sel (sel_minRow sel) (sel_minCol sel)"
  by (simp add: in_region_def sel_minRow_def sel_maxRow_def sel_minCol_def sel_maxCol_def)

subsection \<open>The two loops of \<^verbatim>\<open>mergeCells\<close>\<close>

lemma find_cell_foldl_modify:
  assumes "\<And>r c cell. columnIndex (g r c cell) = columnIndex cell"
    and "distinct ps"
  shows "find_cell (foldl (\<lambda>rows (r, c). modify_cell r c (g r c) rows) rows ps) r' c' =
         (if (r', c') \<in> set ps then map_option (g r' c') (find_cell rows r' c')
          else find_cell rows r' c')"
  using assms(2)
proof (induction ps arbitrary: rows)
  case Nil
  then show ?case by simp
next
  case (Cons p ps)
  obtain r c where p: "p = (r, c)" by (cases p)
  have step: "find_cell (modify_cell r c (g r c) rows) r' c' =
      (if r' = r \<and> c' = c then map_option (g r c) (find_cell rows r c) else find_cell rows r' c')"
    by (rule find_cell_modify_cell) (rule assms(1))
  from Cons.prems have "distinct ps" and "p \<notin> set ps" by simp_all
  with Cons.IH [of "modify_cell r c (g r c) rows"] step p show ?case
    by auto
qed

lemma find_cell_dissolve_group:
  "find_cell (dissolve_group oldId rows) r c =
     map_option (\<lambda>c2. if mergeId c2 = oldId
             then c2\<lparr>isMerged := False, rowSpan := 1, colSpan := 1, isHidden := False, mergeId := []\<rparr>
             else c2) (find_cell rows r c)"
  unfolding dissolve_group_def by (rule find_cell_forEach_cell) simp

lemma dissolve_at_payload:
  "rel_option same_payload (find_cell (dissolve_at rows p) r c) (find_cell rows r c)"
  unfolding dissolve_at_def
  by (cases "find_cell rows r c")
     (auto simp: find_cell_dissolve_group same_payload_def split: option.splits)

lemma foldl_dissolve_payload:
  "rel_option same_payload (find_cell (foldl dissolve_at rows ps) r c) (find_cell rows r c)"
proof (induction ps arbitrary: rows)
  case Nil
  show ?case by (cases "find_cell rows r c") (simp_all add: same_payload_def)
next
  case (Cons p ps)
  have a: "rel_option same_payload (find_cell (foldl dissolve_at (dissolve_at rows p) ps) r c)
             (find_cell (dissolve_at rows p) r c)" by (rule Cons.IH)
  have b: "rel_option same_payload (find_cell (dissolve_at rows p) r c) (find_cell rows r c)"
    by (rule dissolve_at_payload)
  from a b show ?case
    by (auto simp: option_rel_Some1 option_rel_Some2 same_payload_def
        elim!: option.rel_cases)
qed

lemma foldl_dissolve_unmerged:
  assumes "\<forall>cell \<in> set (all_cells rows). \<not> isMerged cell"
  shows "foldl dissolve_at rows ps = rows"
proof (induction ps)
  case Nil
  show ?case by simp
next
  case (Cons p ps)
  have "dissolve_at rows p = rows"
    using assms unfolding dissolve_at_def
    by (auto split: option.splits dest: find_cell_mem)
  with Cons show ?case by simp
qed

lemma merge_write_columnIndex:
  "columnIndex (merge_write topLeft mid a b c d r k cell) = columnIndex cell"
  by (simp add: merge_write_def Let_def)

lemma mergeCells_lookup:
  assumes len: "2 \<le> length (selectedCells s)"
    and rect: "int (length (selectedCells s)) = bounding_area (selectedCells s)"
    and rows1: "rows1 = foldl dissolve_at (tableRows s)
                  (rect_positions (sel_minRow (selectedCells s)) (sel_maxRow (selectedCells s))
                     (sel_minCol (selectedCells s)) (sel_maxCol (selectedCells s)))"
    and tl: "find_cell rows1 (sel_minRow (selectedCells s)) (sel_minCol (selectedCells s)) = Some topLeft"
  shows "selectedCells (mergeCells s) =
           [Cell_ref (sel_minRow (selectedCells s)) (sel_minCol (selectedCells s))]"
    and "find_cell (tableRows (mergeCells s)) r c =
           (if in_region (selectedCells s) r c
            then map_option
                   (merge_write topLeft
                      (createMergeId (sel_minRow (selectedCells s)) (sel_minCol (selectedCells s))
                         (sel_maxRow (selectedCells s)) (sel_maxCol (selectedCells s)))
                      (sel_minRow (selectedCells s)) (sel_maxRow (selectedCells s))
                      (sel_minCol (selectedCells s)) (sel_maxCol (selectedCells s)) r c)
                   (find_cell rows1 r c)
            else find_cell rows1 r c)"
    and "rowCount (mergeCells s) = rowCount s" and "columnCount (mergeCells s) = columnCount s"
proof -
  let ?sel = "selectedCells s"
  let ?a = "sel_minRow ?sel" and ?b = "sel_maxRow ?sel"
  let ?c = "sel_minCol ?sel" and ?d = "sel_maxCol ?sel"
  let ?mid = "createMergeId ?a ?c ?b ?d"
  let ?region = "rect_positions ?a ?b ?c ?d"
  let ?newRows = "foldl (\<lambda>rows (r, c). modify_cell r c (merge_write topLeft ?mid ?a ?b ?c ?d r c) rows)
                    rows1 ?region"
  from len have ne: "?sel \<noteq> []" by auto
  have bounds: "Math_min (map fst (map position_of ?sel)) = ?a"
    "Math_max (map fst (map position_of ?sel)) = ?b"
    "Math_min (map snd (map position_of ?sel)) = ?c"
    "Math_max (map snd (map position_of ?sel)) = ?d"
    by (simp_all only: merge_bounds [OF ne] sel_minRow_def sel_maxRow_def sel_minCol_def sel_maxCol_def)
  have not_lt: "\<not> length ?sel < 2" using len by simp
  have eq: "mergeCells s =
      (saveToBackend ?newRows (rowCount s) (columnCount s) (s\<lparr>tableRows := ?newRows\<rparr>))
        \<lparr>selectedCells := [Cell_ref ?a ?c]\<rparr>"
    unfolding mergeCells_def Let_def bounds
    using not_lt rect tl rows1 by (simp add: bounding_area_alt)
  show "selectedCells (mergeCells s) = [Cell_ref ?a ?c]"
    by (simp add: eq)
  show "rowCount (mergeCells s) = rowCount s" "columnCount (mergeCells s) = columnCount s"
    by (simp_all add: eq saveToBackend_def)
  have tr: "tableRows (mergeCells s) = ?newRows"
    by (simp add: eq saveToBackend_def)
  have "find_cell ?newRows r c =
      (if (r, c) \<in> set ?region
       then map_option (merge_write topLeft ?mid ?a ?b ?c ?d r c) (find_cell rows1 r c)
       else find_cell rows1 r c)"
    by (rule find_cell_foldl_modify) (simp_all add: merge_write_columnIndex distinct_rect_positions)
  then show "find_cell (tableRows (mergeCells s)) r c =
           (if in_region ?sel r c
            then map_option (merge_write topLeft ?mid ?a ?b ?c ?d r c) (find_cell rows1 r c)
            else find_cell rows1 r c)"
    by (simp add: tr set_rect_positions in_region_def)
qed

lemma dissolve_merge_write:
  "(\<lambda>c2. if mergeId c2 = mid
         then c2\<lparr>isMerged := False, rowSpan := 1, colSpan := 1, isHidden := False, mergeId := []\<rparr>
         else c2) (merge_write topLeft mid a b c d r k cell) =
   cell\<lparr> sequenceNumber := sequenceNumber topLeft, checked := checked topLeft,
         isBlocked := isBlocked topLeft, isSelected := isBlocked topLeft,
         isBlank := isBlank topLeft, isMerged := False, mergeId := [], rowSpan := 1,
         colSpan := 1, isHidden := False \<rparr>"
  by (simp add: merge_write_def Let_def)

subsection \<open>The example states\<close>

lemma legacy_pair_sel: "selectedCells legacy_pair = [Cell_ref 1 1, Cell_ref 1 2]"
  by (simp add: legacy_pair_def)

lemma legacy_pair_bounds:
  "sel_minRow (selectedCells legacy_pair) = 1" "sel_maxRow (selectedCells legacy_pair) = 1"
  "sel_minCol (selectedCells legacy_pair) = 1" "sel_maxCol (selectedCells legacy_pair) = 2"
  by (simp_all add: legacy_pair_sel sel_minRow_def sel_maxRow_def sel_minCol_def sel_maxCol_def)

lemma legacy_pair_rect:
  "int (length (selectedCells legacy_pair)) = bounding_area (selectedCells legacy_pair)"
  by (simp add: bounding_area_alt legacy_pair_bounds) (simp add: legacy_pair_sel)

lemma legacy_pair_cells:
  "all_cells (tableRows legacy_pair) =
     [(default_cell 1 1)\<lparr>sequenceNumber := ''a'', isBlocked := True\<rparr>,
      (default_cell 1 2)\<lparr>sequenceNumber := ''b'', checked := True, isBlocked := True\<rparr>]"
  by (simp add: legacy_pair_def all_cells_def)

lemma legacy_pair_find:
  "find_cell (tableRows legacy_pair) 1 1 =
     Some ((default_cell 1 1)\<lparr>sequenceNumber := ''a'', isBlocked := True\<rparr>)"
  "find_cell (tableRows legacy_pair) 1 2 =
     Some ((default_cell 1 2)\<lparr>sequenceNumber := ''b'', checked := True, isBlocked := True\<rparr>)"
  by (simp_all add: legacy_pair_def find_cell_def default_cell_def)

subsection \<open>Value edits and checkbox toggles\<close>

lemma all_cells_forEach_cell: "all_cells (forEach_cell g rows) = map g (all_cells rows)"
  by (simp add: all_cells_def forEach_cell_def map_concat comp_def)

lemma map_map_first_erase:
  assumes "\<And>x. e (f x) = e x"
  shows "map e (map_first P f xs) = map e xs"
  using assms by (induction xs) auto

lemma forEach_cell_modify_cell_erase:
  assumes "\<And>x. e (f x) = e x"
  shows "forEach_cell e (modify_cell r c f rows) = forEach_cell e rows"
proof -
  let ?g = "\<lambda>row. row\<lparr>cells := map_first (\<lambda>cl. columnIndex cl = c) f (cells row)\<rparr>"
  let ?h = "\<lambda>row. row\<lparr>cells := map e (cells row)\<rparr>"
  have "\<And>row. ?h (?g row) = ?h row"
    by (simp add: map_map_first_erase [of e f, OF assms])
  then have "map ?h (map_first (\<lambda>row. row_rowIndex row = r) ?g rows) = map ?h rows"
    by (rule map_map_first_erase)
  then show ?thesis by (simp add: forEach_cell_def modify_cell_def)
qed

lemma forEach_cell_forEach_cell_erase:
  assumes "\<And>x. e (g x) = e x"
  shows "forEach_cell e (forEach_cell g rows) = forEach_cell e rows"
  using assms by (simp add: forEach_cell_def comp_def)

lemma tableRows_handleCellValueChange:
  "tableRows (handleCellValueChange p r c v s) =
     (case find_cell (tableRows s) r c of
        None \<Rightarrow> tableRows s
      | Some targetCell \<Rightarrow>
          (if mergeId targetCell \<noteq> []
           then forEach_cell (\<lambda>cell. if mergeId cell = mergeId targetCell
                                     then cell\<lparr>sequenceNumber := v\<rparr> else cell)
                  (modify_cell r c (\<lambda>x. x\<lparr>sequenceNumber := v\<rparr>) (tableRows s))
           else modify_cell r c (\<lambda>x. x\<lparr>sequenceNumber := v\<rparr>) (tableRows s)))"
  by (simp add: handleCellValueChange_def saveToBackend_def Let_def split: option.splits)

lemma tableRows_handleCheckboxChange:
  "tableRows (handleCheckboxChange p r c s) =
     (case find_cell (tableRows s) r c of
        None \<Rightarrow> tableRows s
      | Some targetCell \<Rightarrow>
          (if mergeId targetCell \<noteq> []
           then forEach_cell
                  (\<lambda>cell. if mergeId cell = mergeId targetCell
                           then cell\<lparr>checked := \<not> checked targetCell, isBlocked := \<not> checked targetCell,
                                     isSelected := \<not> checked targetCell\<rparr>
                           else cell)
                  (modify_cell r c
                     (\<lambda>x. x\<lparr>checked := \<not> checked targetCell, isBlocked := \<not> checked targetCell,
                            isSelected := \<not> checked targetCell\<rparr>) (tableRows s))
           else modify_cell r c
                  (\<lambda>x. x\<lparr>checked := \<not> checked targetCell, isBlocked := \<not> checked targetCell,
                         isSelected := \<not> checked targetCell\<rparr>) (tableRows s)))"
  by (simp add: handleCheckboxChange_def saveToBackend_def Let_def split: option.splits)

lemma edit_changes_only_value:
  "forEach_cell erase_value (tableRows (handleCellValueChange p r c v s)) =
   forEach_cell erase_value (tableRows s)"
  unfolding tableRows_handleCellValueChange
  by (simp add: forEach_cell_forEach_cell_erase forEach_cell_modify_cell_erase erase_value_def
      split: option.splits)

lemma edit_keeps_isBlocked:
  "map isBlocked (all_cells (tableRows (handleCellValueChange p r c v s))) =
   map isBlocked (all_cells (tableRows s))"
proof -
  have "map isBlocked (all_cells rows) = map isBlocked (all_cells (forEach_cell erase_value rows))"
    for rows
    by (simp add: all_cells_forEach_cell erase_value_def comp_def)
  from this [of "tableRows (handleCellValueChange p r c v s)"] this [of "tableRows s"]
  show ?thesis by (simp only: edit_changes_only_value)
qed

lemma merged_row_anchor:
  "find_cell (tableRows merged_row) 1 1 =
     Some ((default_cell 1 1)\<lparr>isMerged := True, mergeId := ''1112'', colSpan := 2\<rparr>)"
  by code_simp

lemma merged_row_isBlocked:
  "map isBlocked (all_cells (tableRows merged_row)) = [False, False, False, False]"
  by code_simp

subsection \<open>Insertion-ordered sets and the drag rectangle\<close>

lemma set_set_add: "set (set_add x s) = insert x (set s)"
  by (auto simp: set_add_def)

lemma distinct_set_add: "distinct s \<Longrightarrow> distinct (set_add x s)"
  by (simp add: set_add_def)

lemma foldl_set_add:
  "set (foldl (\<lambda>s x. set_add (f x) s) acc xs) = set acc \<union> f ` set xs"
  by (induction xs arbitrary: acc) (auto simp: set_set_add)

lemma distinct_foldl_set_add:
  "distinct acc \<Longrightarrow> distinct (foldl (\<lambda>s x. set_add (f x) s) acc xs)"
  by (induction xs arbitrary: acc) (simp_all add: distinct_set_add)

lemma rect_loop_body:
  "(\<lambda>selection (r, c). set_add (Cell_ref r c) selection) =
   (\<lambda>selection x. set_add ((\<lambda>(r, c). Cell_ref r c) x) selection)"
  by (simp add: fun_eq_iff)

lemma set_getRectangularSelection:
  "set (getRectangularSelection r0 c0 r1 c1) =
     {Cell_ref r c | r c. min r0 r1 \<le> r \<and> r \<le> max r0 r1 \<and> min c0 c1 \<le> c \<and> c \<le> max c0 c1}"
proof -
  have "set (getRectangularSelection r0 c0 r1 c1) =
      (\<lambda>(r, c). Cell_ref r c) ` set (rect_positions (min r0 r1) (max r0 r1) (min c0 c1) (max c0 c1))"
    unfolding getRectangularSelection_def Let_def rect_loop_body
    by (simp add: foldl_set_add)
  then show ?thesis by (auto simp: set_rect_positions)
qed

lemma distinct_getRectangularSelection: "distinct (getRectangularSelection r0 c0 r1 c1)"
  unfolding getRectangularSelection_def Let_def rect_loop_body
  by (simp add: distinct_foldl_set_add)

lemma drag_2_2_to_4_1:
  "getRectangularSelection 2 2 4 1 =
     [Cell_ref 2 1, Cell_ref 2 2, Cell_ref 3 1, Cell_ref 3 2, Cell_ref 4 1, Cell_ref 4 2]"
  by code_simp

subsection \<open>Counting cells\<close>

lemma foldl_add_sum_list: "foldl (\<lambda>sum x. sum + f x) (a::nat) xs = a + sum_list (map f xs)"
  by (induction xs arbitrary: a) simp_all

lemma length_filter_concat:
  "length (filter P (concat xss)) = sum_list (map (\<lambda>xs. length (filter P xs)) xss)"
  by (induction xss) simp_all

lemma count_over_rows:
  "foldl (\<lambda>sum row. sum + length (filter P (cells row))) 0 rows = length (filter P (all_cells rows))"
  by (simp add: foldl_add_sum_list length_filter_concat all_cells_def comp_def)

lemma total_over_rows:
  "foldl (\<lambda>sum row. sum + length (cells row)) 0 rows = length (all_cells rows)"
  by (simp add: foldl_add_sum_list all_cells_def length_concat comp_def)

lemma perform_statistics:
  "(tableRows (perform p s e) = tableRows s \<and> statistics (perform p s e) = statistics s)
   \<or> statistics_current (perform p s e)"
proof (cases e)
  case (LoadData incoming)
  then show ?thesis
    by (auto simp: loadData_def statistics_current_def split: option.splits)
next
  case Mount
  then show ?thesis
    by (simp add: mountEffect_def createNewTable_def saveToBackend_def statistics_current_def Let_def)
next
  case GenerateTable
  then show ?thesis
    by (simp add: applyDimensions_def createNewTable_def saveToBackend_def statistics_current_def Let_def)
next
  case AddRow
  then show ?thesis
    by (simp add: addRow_def saveToBackend_def statistics_current_def Let_def)
next
  case AddColumn
  then show ?thesis
    by (simp add: addColumn_def saveToBackend_def statistics_current_def Let_def)
next
  case (EditValue r c v)
  then show ?thesis
    by (simp add: handleCellValueChange_def saveToBackend_def statistics_current_def Let_def
        split: option.splits)
next
  case (ToggleCheckbox r c)
  then show ?thesis
    by (simp add: handleCheckboxChange_def saveToBackend_def statistics_current_def Let_def
        split: option.splits)
next
  case Merge
  then show ?thesis
    by (simp add: mergeCells_def saveToBackend_def statistics_current_def Let_def
        split: option.splits)
next
  case Unmerge
  then show ?thesis
    by (simp add: unmergeCells_def saveToBackend_def statistics_current_def Let_def
        split: option.splits list.splits prod.splits)
next
  case Blank
  then show ?thesis
    by (simp add: blankSelectedCells_def saveToBackend_def statistics_current_def Let_def)
next
  case Unblank
  then show ?thesis
    by (simp add: unblankSelectedCells_def saveToBackend_def statistics_current_def Let_def)
qed (simp_all add: rowCountAttributeEffect_def columnCountAttributeEffect_def
      handleCellMouseDown_def handleCellMouseEnter_def onMouseUp_def handleCellClick_def
      selectAllCells_def clearSelection_def Let_def split: option.splits prod.splits)

lemma perform_keeps_current: "statistics_current s \<Longrightarrow> statistics_current (perform p s e)"
  using perform_statistics [of p s e] by (auto simp: statistics_current_def)

lemma run_keeps_current: "statistics_current s \<Longrightarrow> statistics_current (foldl (perform p) s es)"
  by (induction es arbitrary: s) (simp_all add: perform_keeps_current)

subsection \<open>The loop of blank and unblank\<close>

lemma blank_rel_fields:
  "blank_rel v a b \<Longrightarrow> isHidden a = isHidden b \<and> mergeId a = mergeId b \<and> columnIndex a = columnIndex b"
  by (auto simp: blank_rel_def)

lemma blank_rel_keeps: "blank_rel v a b \<Longrightarrow> isBlank b = v \<Longrightarrow> isBlank a = v"
  by (auto simp: blank_rel_def)

lemma blank_step_lookup:
  "rel_option (blank_rel v) (find_cell (blank_step v rows ref) r c) (find_cell rows r c)"
proof -
  obtain r0 c0 where p: "position_of ref = (r0, c0)" by (cases "position_of ref")
  show ?thesis
  proof (cases "find_cell rows r c")
    case None
    then show ?thesis
      unfolding blank_step_def p
      by (auto simp: find_cell_forEach_cell find_cell_modify_cell Let_def split: option.splits)
  next
    case (Some x)
    then show ?thesis
      unfolding blank_step_def p
      by (auto simp: find_cell_forEach_cell find_cell_modify_cell blank_rel_def Let_def
          split: option.splits)
  qed
qed

lemma blank_step_visible:
  "addresses_visible_cell (blank_step v rows x) = addresses_visible_cell rows"
proof
  fix ref
  have "rel_option (blank_rel v)
      (find_cell (blank_step v rows x) (fst (position_of ref)) (snd (position_of ref)))
      (find_cell rows (fst (position_of ref)) (snd (position_of ref)))"
    by (rule blank_step_lookup)
  then show "addresses_visible_cell (blank_step v rows x) ref = addresses_visible_cell rows ref"
    unfolding addresses_visible_cell_def
    by (auto elim!: option.rel_cases dest: blank_rel_fields)
qed

lemma blank_step_skips:
  "\<not> addresses_visible_cell rows ref \<Longrightarrow> blank_step v rows ref = rows"
  unfolding addresses_visible_cell_def blank_step_def
  by (cases "position_of ref") (auto split: option.splits)

lemma foldl_blank_step_filter:
  "foldl (blank_step v) rows sel =
   foldl (blank_step v) rows (filter (addresses_visible_cell rows) sel)"
proof (induction sel arbitrary: rows)
  case Nil
  show ?case by simp
next
  case (Cons x xs)
  show ?case
  proof (cases "addresses_visible_cell rows x")
    case True
    with Cons [of "blank_step v rows x"] show ?thesis
      by (simp add: blank_step_visible)
  next
    case False
    with Cons [of rows] show ?thesis by (simp add: blank_step_skips)
  qed
qed

lemma blank_step_target:
  assumes "position_of ref = (r, c)" and "find_cell rows r c = Some cell" and "\<not> isHidden cell"
  shows "\<exists>x. find_cell (blank_step v rows ref) r c = Some x \<and> isBlank x = v"
  using assms unfolding blank_step_def
  by (simp add: find_cell_forEach_cell find_cell_modify_cell Let_def)

lemma blank_step_stable:
  assumes "\<exists>x. find_cell rows r c = Some x \<and> isBlank x = v"
  shows "\<exists>x. find_cell (blank_step v rows ref) r c = Some x \<and> isBlank x = v"
proof -
  from assms obtain x where x: "find_cell rows r c = Some x" and b: "isBlank x = v" by blast
  from blank_step_lookup [of v rows ref r c] x
  obtain x' where x': "find_cell (blank_step v rows ref) r c = Some x'" and rel: "blank_rel v x' x"
    by (auto simp: option_rel_Some2)
  from rel b have "isBlank x' = v" by (rule blank_rel_keeps)
  with x' show ?thesis by blast
qed

lemma foldl_blank_step_stable:
  assumes "\<exists>x. find_cell rows r c = Some x \<and> isBlank x = v"
  shows "\<exists>x. find_cell (foldl (blank_step v) rows sel) r c = Some x \<and> isBlank x = v"
  using assms
proof (induction sel arbitrary: rows)
  case Nil
  then show ?case by simp
next
  case (Cons y ys)
  from Cons.IH [OF blank_step_stable [OF Cons.prems]] show ?case by simp
qed

lemma all_cells_modify_cell:
  "list_all2 (\<lambda>a b. a = b \<or> a = f b) (all_cells (modify_cell r c f rows)) (all_cells rows)"
proof -
  have cellsrel: "list_all2 (\<lambda>a b. a = b \<or> a = f b) (map_first P f xs) xs" for P xs
    by (induction xs) (auto simp: list_all2_same)
  have "list_all2 (\<lambda>a b. a = b \<or> a = f b)
      (concat (map cells (map_first Q (\<lambda>row. row\<lparr>cells := map_first P f (cells row)\<rparr>) rows)))
      (concat (map cells rows))" for P Q
  proof (induction rows)
    case Nil
    show ?case by simp
  next
    case (Cons row rows)
    have same: "list_all2 (\<lambda>a b. a = b \<or> a = f b) ys ys" for ys
      by (simp add: list_all2_same)
    from Cons cellsrel [of P "cells row"] same show ?case
      by (auto intro!: list_all2_appendI)
  qed
  then show ?thesis by (simp add: all_cells_def modify_cell_def)
qed

lemma all_cells_blank_step:
  "list_all2 (blank_rel v) (all_cells (blank_step v rows ref)) (all_cells rows)"
proof -
  obtain r0 c0 where p: "position_of ref = (r0, c0)" by (cases "position_of ref")
  let ?f = "\<lambda>x. x\<lparr>isBlank := v\<rparr>"
  have m: "list_all2 (blank_rel v) (all_cells (modify_cell r0 c0 ?f rows)) (all_cells rows)"
    using all_cells_modify_cell [of ?f r0 c0 rows] by (simp add: blank_rel_def [abs_def])
  have g: "list_all2 (blank_rel v) (map (\<lambda>x. if mergeId x = M then ?f x else x) xs) ys"
    if "list_all2 (blank_rel v) xs ys" for M xs ys
    using that by (induction rule: list_all2_induct) (auto simp: blank_rel_def)
  have same: "list_all2 (blank_rel v) (all_cells rows) (all_cells rows)"
    by (simp add: list_all2_same blank_rel_def)
  show ?thesis
    unfolding blank_step_def p
    using m g [OF m] same
    by (simp add: all_cells_forEach_cell Let_def split: option.splits)
qed

lemma list_all2_member:
  "list_all2 R xs ys \<Longrightarrow> a \<in> set xs \<Longrightarrow> \<exists>b \<in> set ys. R a b"
  by (induction rule: list_all2_induct) auto

lemma group_blank_step_stable:
  assumes "group_blank v M rows"
  shows "group_blank v M (blank_step v rows ref)"
  unfolding group_blank_def
proof (intro ballI impI)
  fix a
  assume a: "a \<in> set (all_cells (blank_step v rows ref))" and ma: "mergeId a = M"
  from list_all2_member [OF all_cells_blank_step a]
  obtain b where b: "b \<in> set (all_cells rows)" and rel: "blank_rel v a b"
    by blast
  from rel ma have "mergeId b = M" by (auto dest: blank_rel_fields)
  with assms b have "isBlank b = v" by (simp add: group_blank_def)
  with rel show "isBlank a = v" by (rule blank_rel_keeps)
qed

lemma foldl_group_blank_stable:
  "group_blank v M rows \<Longrightarrow> group_blank v M (foldl (blank_step v) rows sel)"
  by (induction sel arbitrary: rows) (simp_all add: group_blank_step_stable)

lemma blank_step_group:
  assumes "position_of ref = (r, c)" and "find_cell rows r c = Some cell" and "\<not> isHidden cell"
    and "mergeId cell \<noteq> []"
  shows "group_blank v (mergeId cell) (blank_step v rows ref)"
  using assms unfolding blank_step_def group_blank_def
  by (auto simp: all_cells_forEach_cell Let_def)

lemma foldl_blank_step_selected:
  assumes "ref \<in> set sel" and "position_of ref = (r, c)"
    and "find_cell rows r c = Some cell" and "\<not> isHidden cell"
  shows "(\<exists>x. find_cell (foldl (blank_step v) rows sel) r c = Some x \<and> isBlank x = v)
       \<and> (mergeId cell \<noteq> [] \<longrightarrow> group_blank v (mergeId cell) (foldl (blank_step v) rows sel))"
  using assms
proof (induction sel arbitrary: rows cell)
  case Nil
  then show ?case by simp
next
  case (Cons y ys)
  show ?case
  proof (cases "ref = y")
    case True
    have t: "\<exists>x. find_cell (blank_step v rows y) r c = Some x \<and> isBlank x = v"
      using blank_step_target [OF Cons.prems(2,3,4)] True by simp
    have g: "mergeId cell \<noteq> [] \<longrightarrow> group_blank v (mergeId cell) (blank_step v rows y)"
      using blank_step_group [OF Cons.prems(2,3,4)] True by simp
    from foldl_blank_step_stable [OF t] g show ?thesis
      by (auto intro: foldl_group_blank_stable)
  next
    case False
    with Cons.prems have mem: "ref \<in> set ys" by simp
    from blank_step_lookup [of v rows y r c] Cons.prems(3)
    obtain cell' where c': "find_cell (blank_step v rows y) r c = Some cell'"
      and rel: "blank_rel v cell' cell"
      by (auto simp: option_rel_Some2)
    from rel Cons.prems(4) have h: "\<not> isHidden cell'" and m: "mergeId cell' = mergeId cell"
      by (auto dest: blank_rel_fields)
    from Cons.IH [OF mem Cons.prems(2) c' h] m show ?thesis by simp
  qed
qed

lemma tableRows_blank_any:
  "tableRows (blankSelectedCells s) = foldl (blank_step True) (tableRows s) (selectedCells s)"
  "tableRows (unblankSelectedCells s) = foldl (blank_step False) (tableRows s) (selectedCells s)"
  by (cases "selectedCells s"; simp add: blankSelectedCells_def unblankSelectedCells_def
      saveToBackend_def Let_def)+

lemma hidden_and_plain_facts:
  "selectedCells hidden_and_plain = [Cell_ref 1 2, Cell_ref 2 1]"
  "find_cell (tableRows hidden_and_plain) 2 1 = Some (default_cell 2 1)"
  "filter (addresses_visible_cell (tableRows hidden_and_plain)) [Cell_ref 1 2, Cell_ref 2 1] =
     [Cell_ref 2 1]"
  by code_simp+

lemma anchor_selected_facts:
  "selectedCells anchor_selected = [Cell_ref 1 1]"
  "find_cell (tableRows anchor_selected) 1 1 =
     Some ((default_cell 1 1)\<lparr>isMerged := True, mergeId := ''1112'', colSpan := 2\<rparr>)"
  by code_simp+

subsection \<open>Decoding an encoded grid\<close>

text \<open>Saving and loading reproduces the counts and the persisted fields of every cell as
  long as no text value is empty and no span is zero.\<close>

lemma persisted_validate_encode:
  assumes "sequenceNumber c \<noteq> []" and "rowSpan c \<noteq> 0" and "colSpan c \<noteq> 0"
  shows "persisted (validate_cell r k (encode_cell c)) = persisted c"
  using assms
  by (auto simp: persisted_def validate_cell_def encode_cell_def or_string_def or_bool_def
      or_int_def Let_def)

lemma those_map_Some: "those (map (\<lambda>x. Some (f x)) xs) = Some (map f xs)"
  by (induction xs) simp_all

lemma validate_rows_encode:
  "validate_rows (map encode_row rows) =
     Some (map (\<lambda>(idx, row).
            \<lparr> row_id = int idx + 1, row_rowIndex = int idx + 1,
              cells = map (\<lambda>(cIdx, cell). validate_cell (int idx + 1) (int cIdx + 1) (encode_cell cell))
                        (enumerate 0 (cells row)) \<rparr>)
          (enumerate 0 rows))"
proof -
  have row: "validate_row idx (encode_row row) =
      Some \<lparr> row_id = int idx + 1, row_rowIndex = int idx + 1,
             cells = map (\<lambda>(cIdx, cell). validate_cell (int idx + 1) (int cIdx + 1) (encode_cell cell))
                       (enumerate 0 (cells row)) \<rparr>" for idx row
    by (simp add: validate_row_def encode_row_def Let_def enumerate_eq_zip zip_map2 case_prod_beta)
  have "map (\<lambda>(idx, row). validate_row idx row) (enumerate 0 (map encode_row rows)) =
      map (\<lambda>p. Some ((\<lambda>(idx, row).
            \<lparr> row_id = int idx + 1, row_rowIndex = int idx + 1,
              cells = map (\<lambda>(cIdx, cell). validate_cell (int idx + 1) (int cIdx + 1) (encode_cell cell))
                        (enumerate 0 (cells row)) \<rparr>) p)) (enumerate 0 rows)"
    by (simp add: enumerate_eq_zip zip_map2 case_prod_beta row)
  then show ?thesis
    unfolding validate_rows_def by (simp only: those_map_Some)
qed

lemma map_persisted_enumerate:
  assumes "\<forall>c \<in> set cs. sequenceNumber c \<noteq> [] \<and> rowSpan c \<noteq> 0 \<and> colSpan c \<noteq> 0"
  shows "map persisted (map (\<lambda>(cIdx, cell). validate_cell r (int cIdx + 1) (encode_cell cell))
           (enumerate n cs)) = map persisted cs"
  using assms
  by (induction cs arbitrary: n) (simp_all add: persisted_validate_encode)

lemma map_persisted_enumerate_comp:
  assumes "\<forall>c \<in> set cs. sequenceNumber c \<noteq> [] \<and> rowSpan c \<noteq> 0 \<and> colSpan c \<noteq> 0"
  shows "map (persisted \<circ> (\<lambda>(cIdx, cell). validate_cell r (int cIdx + 1) (encode_cell cell)))
           (enumerate n cs) = map persisted cs"
  using map_persisted_enumerate [OF assms, of r n] by simp

lemma loadData_encode_round_trip:
  assumes "rws > 0" and "cols > 0"
    and ok: "\<forall>c \<in> set (all_cells rows). sequenceNumber c \<noteq> [] \<and> rowSpan c \<noteq> 0 \<and> colSpan c \<noteq> 0"
  shows "rowCount (loadData (Some (encode rows rws cols)) s) = rws"
    and "columnCount (loadData (Some (encode rows rws cols)) s) = cols"
    and "map (\<lambda>row. map persisted (cells row)) (tableRows (loadData (Some (encode rows rws cols)) s)) =
         map (\<lambda>row. map persisted (cells row)) rows"
    and "selectedCells (loadData (Some (encode rows rws cols)) s) = []"
proof -
  let ?rows' = "map (\<lambda>(idx, row).
            \<lparr> row_id = int idx + 1, row_rowIndex = int idx + 1,
              cells = map (\<lambda>(cIdx, cell). validate_cell (int idx + 1) (int cIdx + 1) (encode_cell cell))
                        (enumerate 0 (cells row)) \<rparr>)
          (enumerate 0 rows)"
  have load: "loadData (Some (encode rows rws cols)) s =
      s\<lparr> rowCount := rws, columnCount := cols, tableRows := ?rows',
         selectedCells := [], isSelectionMode := False, dataLoaded := True,
         statistics := Some (updateCellStatistics ?rows'),
         lastSavedData := Some (encode rows rws cols) \<rparr>"
    using assms(1,2) by (simp add: loadData_def encode_def validate_rows_encode)
  show "rowCount (loadData (Some (encode rows rws cols)) s) = rws"
    "columnCount (loadData (Some (encode rows rws cols)) s) = cols"
    "selectedCells (loadData (Some (encode rows rws cols)) s) = []"
    by (simp_all add: load)
  have "map (\<lambda>row. map persisted (cells row)) (map (\<lambda>(idx, row).
            \<lparr> row_id = int idx + 1, row_rowIndex = int idx + 1,
              cells = map (\<lambda>(cIdx, cell). validate_cell (int idx + 1) (int cIdx + 1) (encode_cell cell))
                        (enumerate 0 (cells row)) \<rparr>)
          (enumerate n rws0)) = map (\<lambda>row. map persisted (cells row)) rws0"
    if "\<forall>row \<in> set rws0. \<forall>c \<in> set (cells row). sequenceNumber c \<noteq> [] \<and> rowSpan c \<noteq> 0 \<and> colSpan c \<noteq> 0"
    for n rws0
    using that by (induction rws0 arbitrary: n) (simp_all add: map_persisted_enumerate_comp)
  from this [of rows 0] ok
  show "map (\<lambda>row. map persisted (cells row)) (tableRows (loadData (Some (encode rows rws cols)) s)) =
         map (\<lambda>row. map persisted (cells row)) rows"
    by (simp add: load all_cells_def)
qed

subsection \<open>Dimension bounds\<close>

text \<open>Once the counts are within \<open>1..100\<close>, every event other than loading a snapshot
  keeps them there, and \<^verbatim>\<open>applyDimensions\<close> rejects counts outside that range without
  touching the grid. The counts a component is mounted with are not tested.\<close>

lemma bounded_entry_points:
  assumes "dimensions_ok s" and "\<And>incoming. e \<noteq> LoadData incoming"
  shows "dimensions_ok (perform p s e)"
proof (cases e)
  case Mount
  with assms(1) show ?thesis
    by (simp add: mountEffect_def createNewTable_def saveToBackend_def dimensions_ok_def Let_def)
next
  case (LoadData incoming)
  with assms(2) show ?thesis by blast
next
  case GenerateTable
  with assms(1) show ?thesis
    by (simp add: applyDimensions_def createNewTable_def saveToBackend_def dimensions_ok_def Let_def)
next
  case AddRow
  with assms(1) show ?thesis
    by (simp add: addRow_def saveToBackend_def dimensions_ok_def Let_def)
next
  case AddColumn
  with assms(1) show ?thesis
    by (simp add: addColumn_def saveToBackend_def dimensions_ok_def Let_def)
next
  case (EditValue r c v)
  with assms(1) show ?thesis
    by (simp add: handleCellValueChange_def saveToBackend_def dimensions_ok_def Let_def
        split: option.splits)
next
  case (ToggleCheckbox r c)
  with assms(1) show ?thesis
    by (simp add: handleCheckboxChange_def saveToBackend_def dimensions_ok_def Let_def
        split: option.splits)
next
  case Merge
  with assms(1) show ?thesis
    by (simp add: mergeCells_def saveToBackend_def dimensions_ok_def Let_def
        split: option.splits)
next
  case Unmerge
  with assms(1) show ?thesis
    by (simp add: unmergeCells_def saveToBackend_def dimensions_ok_def Let_def
        split: option.splits list.splits prod.splits)
next
  case Blank
  with assms(1) show ?thesis
    by (simp add: blankSelectedCells_def saveToBackend_def dimensions_ok_def Let_def)
next
  case Unblank
  with assms(1) show ?thesis
    by (simp add: unblankSelectedCells_def saveToBackend_def dimensions_ok_def Let_def)
qed (insert assms(1), simp_all add: rowCountAttributeEffect_def columnCountAttributeEffect_def
      handleCellMouseDown_def handleCellMouseEnter_def onMouseUp_def handleCellClick_def
      selectAllCells_def clearSelection_def dimensions_ok_def Let_def
      split: option.splits prod.splits)

lemma applyDimensions_rejects_out_of_range:
  assumes "rowCount s > 100 \<or> columnCount s > 100 \<or> rowCount s \<le> 0 \<or> columnCount s \<le> 0"
  shows "tableRows (applyDimensions s) = tableRows s
       \<and> rowCount (applyDimensions s) = rowCount s
       \<and> columnCount (applyDimensions s) = columnCount s
       \<and> length (alerts (applyDimensions s)) = Suc (length (alerts s))"
  using assms by (auto simp: applyDimensions_def)

section \<open>Claims\<close>

subsection \<open>Merge: rejections\<close>

text \<open>
  Claim C3. For every selection of at least two cells whose size differs from the cell
  count of its bounding rectangle, \<^verbatim>\<open>mergeCells\<close> reports the error
  "Please select a rectangular area to merge" and changes nothing else: the grid keeps
  every cell field, and the selection set and the selection mode stay as they were.
\<close>

theorem mergeCells_rejects_non_rectangle:
  assumes "2 \<le> length (selectedCells s)"
    and "int (length (selectedCells s)) \<noteq> bounding_area (selectedCells s)"
  shows "mergeCells s = s\<lparr>alerts := alerts s @ [''Please select a rectangular area to merge'']\<rparr>
       \<and> tableRows (mergeCells s) = tableRows s
       \<and> selectedCells (mergeCells s) = selectedCells s
       \<and> isSelectionMode (mergeCells s) = isSelectionMode s
       \<and> alerts (mergeCells s) \<noteq> alerts s"
proof -
  from assms(1) have ne: "selectedCells s \<noteq> []" by auto
  have "mergeCells s = s\<lparr>alerts := alerts s @ [''Please select a rectangular area to merge'']\<rparr>"
    using assms unfolding mergeCells_def bounding_area_def Let_def merge_bounds [OF ne]
    by simp
  then show ?thesis by simp
qed

theorem mergeCells_rejects_non_rectangle_witness:
  "mergeCells L_selection =
     L_selection\<lparr>alerts := [''Please select a rectangular area to merge'']\<rparr>
   \<and> tableRows (mergeCells L_selection) = tableRows grid_2x2
   \<and> selectedCells (mergeCells L_selection) = [Cell_ref 1 1, Cell_ref 1 2, Cell_ref 2 2]
   \<and> isSelectionMode (mergeCells L_selection)"
proof -
  have sel: "selectedCells L_selection = [Cell_ref 1 1, Cell_ref 1 2, Cell_ref 2 2]"
    by (simp add: L_selection_def)
  have h1: "2 \<le> length (selectedCells L_selection)" by (simp add: sel)
  have h2: "int (length (selectedCells L_selection)) \<noteq> bounding_area (selectedCells L_selection)"
    by (simp add: sel bounding_area_def)
  show ?thesis
    using mergeCells_rejects_non_rectangle [OF h1 h2]
    by (simp add: alerts_grid_2x2 sel L_selection_def)
qed

text \<open>
  Claim C10. In every state, \<^verbatim>\<open>mergeCells\<close> with fewer than two selected cells is a
  silent no-op: the whole state is returned as it was, so the grid, the selection set and
  the selection mode are unchanged, no alert is raised and no host action is executed.
\<close>

theorem mergeCells_below_two_is_noop:
  assumes "length (selectedCells s) < 2"
  shows "mergeCells s = s"
  using assms by (simp add: mergeCells_def)

theorem mergeCells_below_two_is_noop_witness:
  "length (selectedCells single_selection) = 1 \<and> mergeCells single_selection = single_selection"
proof -
  have h: "length (selectedCells single_selection) < 2" by (simp add: single_selection_def)
  show ?thesis using mergeCells_below_two_is_noop [OF h] by (simp add: single_selection_def)
qed

subsection \<open>Merge: what the group receives\<close>

text \<open>
  Claim C9. After a successful merge (two or more selected ids, as many as the bounding
  rectangle has cells, top-left cell present), every cell of the rectangle, the anchor and
  the hidden members alike, has \<^verbatim>\<open>isSelected\<close> equal to the \<^verbatim>\<open>isBlocked\<close> value the
  top-left cell had before the merge, and \<^verbatim>\<open>checked\<close> and \<^verbatim>\<open>isBlocked\<close> equal to the
  top-left cell's \<^verbatim>\<open>checked\<close> and \<^verbatim>\<open>isBlocked\<close>. Hence \<^verbatim>\<open>isSelected\<close> equals
  \<^verbatim>\<open>checked\<close> on the group exactly when the top-left cell had \<^verbatim>\<open>isBlocked\<close> equal to
  \<^verbatim>\<open>checked\<close>.
\<close>

theorem mergeCells_group_flags:
  assumes len: "2 \<le> length (selectedCells s)"
    and rect: "int (length (selectedCells s)) = bounding_area (selectedCells s)"
    and tl: "find_cell (tableRows s) (sel_minRow (selectedCells s)) (sel_minCol (selectedCells s))
               = Some topLeft"
    and reg: "in_region (selectedCells s) r c"
    and cell: "find_cell (tableRows s) r c = Some cell"
  shows "\<exists>cell'. find_cell (tableRows (mergeCells s)) r c = Some cell'
           \<and> isSelected cell' = isBlocked topLeft
           \<and> checked cell' = checked topLeft
           \<and> isBlocked cell' = isBlocked topLeft
           \<and> (isSelected cell' = checked cell' \<longleftrightarrow> isBlocked topLeft = checked topLeft)
           \<and> isMerged cell'
           \<and> (isHidden cell' \<longleftrightarrow>
                \<not> (r = sel_minRow (selectedCells s) \<and> c = sel_minCol (selectedCells s)))"
proof -
  let ?sel = "selectedCells s"
  define rows1 where "rows1 = foldl dissolve_at (tableRows s)
      (rect_positions (sel_minRow ?sel) (sel_maxRow ?sel) (sel_minCol ?sel) (sel_maxCol ?sel))"
  have "rel_option same_payload (find_cell rows1 (sel_minRow ?sel) (sel_minCol ?sel))
          (find_cell (tableRows s) (sel_minRow ?sel) (sel_minCol ?sel))"
    unfolding rows1_def by (rule foldl_dissolve_payload)
  with tl obtain topLeft1 where tl1: "find_cell rows1 (sel_minRow ?sel) (sel_minCol ?sel) = Some topLeft1"
    and p1: "same_payload topLeft1 topLeft"
    by (auto simp: option_rel_Some2)
  have "rel_option same_payload (find_cell rows1 r c) (find_cell (tableRows s) r c)"
    unfolding rows1_def by (rule foldl_dissolve_payload)
  with cell obtain cell1 where c1: "find_cell rows1 r c = Some cell1"
    by (auto simp: option_rel_Some2)
  have "find_cell (tableRows (mergeCells s)) r c =
      Some (merge_write topLeft1
        (createMergeId (sel_minRow ?sel) (sel_minCol ?sel) (sel_maxRow ?sel) (sel_maxCol ?sel))
        (sel_minRow ?sel) (sel_maxRow ?sel) (sel_minCol ?sel) (sel_maxCol ?sel) r c cell1)"
    using mergeCells_lookup(2) [OF len rect rows1_def tl1, of r c] reg c1 by simp
  with p1 show ?thesis
    by (auto simp: merge_write_def same_payload_def Let_def)
qed

theorem mergeCells_group_flags_witness:
  "map_option isSelected (find_cell (tableRows (mergeCells legacy_pair)) 1 2) = Some True
   \<and> map_option checked (find_cell (tableRows (mergeCells legacy_pair)) 1 2) = Some False
   \<and> map_option isBlocked (find_cell (tableRows (mergeCells legacy_pair)) 1 2) = Some True
   \<and> map_option isHidden (find_cell (tableRows (mergeCells legacy_pair)) 1 2) = Some True"
proof -
  let ?tl = "(default_cell 1 1)\<lparr>sequenceNumber := ''a'', isBlocked := True\<rparr>"
  let ?c2 = "(default_cell 1 2)\<lparr>sequenceNumber := ''b'', checked := True, isBlocked := True\<rparr>"
  have sel: "selectedCells legacy_pair = [Cell_ref 1 1, Cell_ref 1 2]"
    by (simp add: legacy_pair_def)
  have b: "sel_minRow (selectedCells legacy_pair) = 1" "sel_maxRow (selectedCells legacy_pair) = 1"
    "sel_minCol (selectedCells legacy_pair) = 1" "sel_maxCol (selectedCells legacy_pair) = 2"
    by (simp_all add: sel sel_minRow_def sel_maxRow_def sel_minCol_def sel_maxCol_def)
  have h1: "2 \<le> length (selectedCells legacy_pair)" by (simp add: sel)
  have h2: "int (length (selectedCells legacy_pair)) = bounding_area (selectedCells legacy_pair)"
    by (simp add: bounding_area_alt b) (simp add: sel)
  have h3: "find_cell (tableRows legacy_pair) (sel_minRow (selectedCells legacy_pair))
      (sel_minCol (selectedCells legacy_pair)) = Some ?tl"
    by (simp add: b) (simp add: legacy_pair_def find_cell_def default_cell_def)
  have h4: "in_region (selectedCells legacy_pair) 1 2" by (simp add: in_region_def b)
  have h5: "find_cell (tableRows legacy_pair) 1 2 = Some ?c2"
    by (simp add: legacy_pair_def find_cell_def default_cell_def)
  from mergeCells_group_flags [OF h1 h2 h3 h4 h5] show ?thesis
    by (auto simp: default_cell_def b)
qed

subsection \<open>Merge followed by unmerge\<close>

text \<open>
  Claim C2, as the code has it. On a grid without merged cells, merging a rectangular
  selection of two or more cells and then unmerging the anchor leaves every member cell
  with \<^verbatim>\<open>isMerged = false\<close>, \<^verbatim>\<open>isHidden = false\<close>, \<^verbatim>\<open>rowSpan = colSpan = 1\<close> and an
  empty merge id; its value, checked, blocked and blank state are those the top-left cell
  had before the merge (and \<^verbatim>\<open>isSelected\<close> is the top-left cell's \<^verbatim>\<open>isBlocked\<close>). The
  merge overwrites the members with the top-left cell's state and the unmerge does not
  bring the old values back.
\<close>

theorem unmerge_after_merge:
  assumes len: "2 \<le> length (selectedCells s)"
    and rect: "int (length (selectedCells s)) = bounding_area (selectedCells s)"
    and unmerged: "\<forall>x \<in> set (all_cells (tableRows s)). \<not> isMerged x"
    and tl: "find_cell (tableRows s) (sel_minRow (selectedCells s)) (sel_minCol (selectedCells s))
               = Some topLeft"
    and reg: "in_region (selectedCells s) r c"
    and cell: "find_cell (tableRows s) r c = Some cell"
  shows "find_cell (tableRows (unmergeCells (mergeCells s))) r c =
           Some (cell\<lparr> sequenceNumber := sequenceNumber topLeft, checked := checked topLeft,
                       isBlocked := isBlocked topLeft, isSelected := isBlocked topLeft,
                       isBlank := isBlank topLeft, isMerged := False, mergeId := [],
                       rowSpan := 1, colSpan := 1, isHidden := False \<rparr>)"
proof -
  let ?sel = "selectedCells s"
  let ?a = "sel_minRow ?sel" and ?b = "sel_maxRow ?sel"
  let ?c = "sel_minCol ?sel" and ?d = "sel_maxCol ?sel"
  let ?mid = "createMergeId ?a ?c ?b ?d"
  let ?s1 = "mergeCells s"
  from len have ne: "?sel \<noteq> []" by auto
  have rows1: "tableRows s = foldl dissolve_at (tableRows s) (rect_positions ?a ?b ?c ?d)"
    using foldl_dissolve_unmerged [OF unmerged] by simp
  note look = mergeCells_lookup [OF len rect rows1 tl]
  have anchor: "find_cell (tableRows ?s1) ?a ?c = Some (merge_write topLeft ?mid ?a ?b ?c ?d ?a ?c topLeft)"
    using look(2) [of ?a ?c] anchor_in_region [OF ne] tl by simp
  have member: "find_cell (tableRows ?s1) r c = Some (merge_write topLeft ?mid ?a ?b ?c ?d r c cell)"
    using look(2) [of r c] reg cell by simp
  have un: "tableRows (unmergeCells ?s1) = dissolve_group ?mid (tableRows ?s1)"
    unfolding unmergeCells_def
    by (simp add: look(1) anchor saveToBackend_def merge_write_def Let_def)
  show ?thesis
    unfolding un find_cell_dissolve_group member
    by (simp only: option.map dissolve_merge_write)
qed

theorem unmerge_after_merge_witness:
  "find_cell (tableRows (unmergeCells (mergeCells legacy_pair))) 1 2 =
     Some ((default_cell 1 2)\<lparr>sequenceNumber := ''a'', isBlocked := True, isSelected := True\<rparr>)"
proof -
  have h1: "2 \<le> length (selectedCells legacy_pair)" by (simp add: legacy_pair_sel)
  have h3: "\<forall>x \<in> set (all_cells (tableRows legacy_pair)). \<not> isMerged x"
    by (simp add: legacy_pair_cells default_cell_def)
  have h4: "find_cell (tableRows legacy_pair) (sel_minRow (selectedCells legacy_pair))
      (sel_minCol (selectedCells legacy_pair)) =
      Some ((default_cell 1 1)\<lparr>sequenceNumber := ''a'', isBlocked := True\<rparr>)"
    by (simp add: legacy_pair_bounds legacy_pair_find)
  have h5: "in_region (selectedCells legacy_pair) 1 2"
    by (simp add: in_region_def legacy_pair_bounds)
  from unmerge_after_merge [OF h1 legacy_pair_rect h3 h4 h5 legacy_pair_find(2)]
  show ?thesis by (simp add: default_cell_def)
qed

text \<open>
  Claim C2 as stated fails: with the values \<open>a\<close> and \<open>b\<close> in a one-row grid, the bag of
  values of the region is \<open>{a, b}\<close> before the merge and \<open>{a, a}\<close> after merge and unmerge,
  and the bag of checked states changes as well.
\<close>

theorem merge_unmerge_bag_counterexample:
  "2 \<le> length (selectedCells legacy_pair)
   \<and> int (length (selectedCells legacy_pair)) = bounding_area (selectedCells legacy_pair)
   \<and> list_all (\<lambda>x. \<not> isMerged x) (all_cells (tableRows legacy_pair))
   \<and> mset (map sequenceNumber (all_cells (tableRows legacy_pair))) = {#''a'', ''b''#}
   \<and> mset (map sequenceNumber (all_cells (tableRows (unmergeCells (mergeCells legacy_pair)))))
       = {#''a'', ''a''#}
   \<and> mset (map sequenceNumber (all_cells (tableRows (unmergeCells (mergeCells legacy_pair)))))
       \<noteq> mset (map sequenceNumber (all_cells (tableRows legacy_pair)))
   \<and> mset (map checked (all_cells (tableRows (unmergeCells (mergeCells legacy_pair)))))
       \<noteq> mset (map checked (all_cells (tableRows legacy_pair)))"
proof -
  have after: "map sequenceNumber (all_cells (tableRows (unmergeCells (mergeCells legacy_pair))))
      = [''a'', ''a'']"
    by code_simp
  have after_checked: "map checked (all_cells (tableRows (unmergeCells (mergeCells legacy_pair))))
      = [False, False]"
    by code_simp
  show ?thesis
    unfolding after after_checked
    by (simp add: legacy_pair_rect) (simp add: legacy_pair_sel legacy_pair_cells default_cell_def)
qed

subsection \<open>Checkbox and text value\<close>

text \<open>
  Claim C4. For every cell of the grid, toggling its checkbox sets \<^verbatim>\<open>checked\<close>,
  \<^verbatim>\<open>isBlocked\<close> and \<^verbatim>\<open>isSelected\<close> to the negation of the old \<^verbatim>\<open>checked\<close>, on the cell
  and on every cell that carries its (non-empty) merge id. Editing the text value writes
  the new value to the cell and to every cell of its merge group, changes no field of any
  cell other than \<^verbatim>\<open>sequenceNumber\<close>, and in particular leaves \<^verbatim>\<open>isBlocked\<close> of every
  cell as it was.
\<close>

theorem checkbox_drives_blocked_edit_does_not:
  assumes target: "find_cell (tableRows s) r c = Some target"
  shows "(\<exists>t. find_cell (tableRows (handleCheckboxChange p r c s)) r c = Some t
            \<and> checked t = (\<not> checked target)
            \<and> isBlocked t = (\<not> checked target)
            \<and> isSelected t = (\<not> checked target))
       \<and> (mergeId target \<noteq> [] \<longrightarrow>
            (\<forall>x \<in> set (all_cells (tableRows (handleCheckboxChange p r c s))).
               mergeId x = mergeId target \<longrightarrow>
               checked x = (\<not> checked target) \<and> isBlocked x = (\<not> checked target)
               \<and> isSelected x = (\<not> checked target)))
       \<and> (\<exists>t. find_cell (tableRows (handleCellValueChange p r c v s)) r c = Some t
            \<and> sequenceNumber t = v)
       \<and> (mergeId target \<noteq> [] \<longrightarrow>
            (\<forall>x \<in> set (all_cells (tableRows (handleCellValueChange p r c v s))).
               mergeId x = mergeId target \<longrightarrow> sequenceNumber x = v))
       \<and> forEach_cell erase_value (tableRows (handleCellValueChange p r c v s)) =
           forEach_cell erase_value (tableRows s)
       \<and> map isBlocked (all_cells (tableRows (handleCellValueChange p r c v s))) =
           map isBlocked (all_cells (tableRows s))"
proof -
  let ?nc = "\<not> checked target"
  let ?f = "\<lambda>x. x\<lparr>checked := ?nc, isBlocked := ?nc, isSelected := ?nc\<rparr>"
  let ?g = "\<lambda>cell. if mergeId cell = mergeId target then ?f cell else cell"
  let ?fv = "\<lambda>x. x\<lparr>sequenceNumber := v\<rparr>"
  let ?gv = "\<lambda>cell. if mergeId cell = mergeId target then ?fv cell else cell"
  have m1: "find_cell (modify_cell r c ?f (tableRows s)) r c = Some (?f target)"
    using target by (simp add: find_cell_modify_cell)
  have m2: "find_cell (forEach_cell ?g (modify_cell r c ?f (tableRows s))) r c = Some (?g (?f target))"
    by (subst find_cell_forEach_cell) (simp_all add: m1)
  have a: "\<exists>t. find_cell (tableRows (handleCheckboxChange p r c s)) r c = Some t
            \<and> checked t = ?nc \<and> isBlocked t = ?nc \<and> isSelected t = ?nc"
    unfolding tableRows_handleCheckboxChange using target m1 m2 by simp
  have b: "mergeId target \<noteq> [] \<longrightarrow>
            (\<forall>x \<in> set (all_cells (tableRows (handleCheckboxChange p r c s))).
               mergeId x = mergeId target \<longrightarrow>
               checked x = ?nc \<and> isBlocked x = ?nc \<and> isSelected x = ?nc)"
    unfolding tableRows_handleCheckboxChange using target
    by (auto simp: all_cells_forEach_cell split: if_splits)
  have v1: "find_cell (modify_cell r c ?fv (tableRows s)) r c = Some (?fv target)"
    using target by (simp add: find_cell_modify_cell)
  have v2: "find_cell (forEach_cell ?gv (modify_cell r c ?fv (tableRows s))) r c = Some (?gv (?fv target))"
    by (subst find_cell_forEach_cell) (simp_all add: v1)
  have c: "\<exists>t. find_cell (tableRows (handleCellValueChange p r c v s)) r c = Some t
            \<and> sequenceNumber t = v"
    unfolding tableRows_handleCellValueChange using target v1 v2 by simp
  have d: "mergeId target \<noteq> [] \<longrightarrow>
            (\<forall>x \<in> set (all_cells (tableRows (handleCellValueChange p r c v s))).
               mergeId x = mergeId target \<longrightarrow> sequenceNumber x = v)"
    unfolding tableRows_handleCellValueChange using target
    by (auto simp: all_cells_forEach_cell split: if_splits)
  from a b c d edit_changes_only_value edit_keeps_isBlocked show ?thesis by blast
qed

theorem checkbox_drives_blocked_edit_does_not_witness:
  "(\<exists>t. find_cell (tableRows (handleCheckboxChange all_on 1 1 merged_row)) 1 1 = Some t
        \<and> checked t \<and> isBlocked t \<and> isSelected t)
   \<and> list_all (\<lambda>x. mergeId x = ''1112'' \<longrightarrow> checked x \<and> isBlocked x \<and> isSelected x)
        (all_cells (tableRows (handleCheckboxChange all_on 1 1 merged_row)))
   \<and> (\<exists>t. find_cell (tableRows (handleCellValueChange all_on 1 1 ''x'' merged_row)) 1 1 = Some t
        \<and> sequenceNumber t = ''x'')
   \<and> list_all (\<lambda>x. mergeId x = ''1112'' \<longrightarrow> sequenceNumber x = ''x'')
        (all_cells (tableRows (handleCellValueChange all_on 1 1 ''x'' merged_row)))
   \<and> map isBlocked (all_cells (tableRows (handleCellValueChange all_on 1 1 ''x'' merged_row))) =
       [False, False, False, False]"
  using checkbox_drives_blocked_edit_does_not [OF merged_row_anchor, of all_on "''x''"]
  by (simp add: default_cell_def list_all_iff merged_row_isBlocked)

subsection \<open>Drag selection\<close>

text \<open>
  Claim C7. For a drag with anchor \<open>(r0, c0)\<close> moved into cell \<open>(r1, c1)\<close> the computed
  span is exactly the set of identifiers of the inclusive rectangle
  \<open>[min r0 r1, max r0 r1] \<times> [min c0 c1, max c0 c1]\<close>, each once; the function does not look
  at the grid, so hidden and merged cells are included like any other. Mouse-down stores
  the selection of that moment as the restore point, and entering a cell while dragging
  makes the selection the restore point united with the rectangle. The span from
  \<open>(2, 2)\<close> to \<open>(4, 1)\<close> is the six cells of rows 2 to 4 and columns 1 to 2, and a drag
  from \<open>(2, 2)\<close> to \<open>(4, 1)\<close> that starts with nothing selected selects exactly these six.
\<close>

theorem drag_selects_rectangle:
  "set (getRectangularSelection r0 c0 r1 c1) =
     {Cell_ref r c | r c. min r0 r1 \<le> r \<and> r \<le> max r0 r1 \<and> min c0 c1 \<le> c \<and> c \<le> max c0 c1}
   \<and> distinct (getRectangularSelection r0 c0 r1 c1)
   \<and> (isSelectionAllowed p \<longrightarrow>
        preSelection (handleCellMouseDown p r0 c0 shiftKey False s) = selectedCells s
        \<and> isDragging (handleCellMouseDown p r0 c0 shiftKey False s)
        \<and> dragStartCell (handleCellMouseDown p r0 c0 shiftKey False s) = Some (r0, c0))
   \<and> (isDragging s \<and> dragStartCell s = Some (r0, c0) \<longrightarrow>
        set (selectedCells (handleCellMouseEnter r1 c1 s)) =
          set (preSelection s) \<union> set (getRectangularSelection r0 c0 r1 c1)
        \<and> dragSelection (handleCellMouseEnter r1 c1 s) = getRectangularSelection r0 c0 r1 c1)
   \<and> getRectangularSelection 2 2 4 1 =
        [Cell_ref 2 1, Cell_ref 2 2, Cell_ref 3 1, Cell_ref 3 2, Cell_ref 4 1, Cell_ref 4 2]
   \<and> (isSelectionAllowed p \<and> selectedCells s = [] \<longrightarrow>
        selectedCells (handleCellMouseEnter 4 1 (handleCellMouseDown p 2 2 shiftKey False s)) =
          [Cell_ref 2 1, Cell_ref 2 2, Cell_ref 3 1, Cell_ref 3 2, Cell_ref 4 1, Cell_ref 4 2])"
proof -
  have down: "isSelectionAllowed p \<longrightarrow>
        preSelection (handleCellMouseDown p r0 c0 shiftKey False s) = selectedCells s
        \<and> isDragging (handleCellMouseDown p r0 c0 shiftKey False s)
        \<and> dragStartCell (handleCellMouseDown p r0 c0 shiftKey False s) = Some (r0, c0)"
    by (simp add: handleCellMouseDown_def Let_def)
  have enter: "isDragging s \<and> dragStartCell s = Some (r0, c0) \<longrightarrow>
        set (selectedCells (handleCellMouseEnter r1 c1 s)) =
          set (preSelection s) \<union> set (getRectangularSelection r0 c0 r1 c1)
        \<and> dragSelection (handleCellMouseEnter r1 c1 s) = getRectangularSelection r0 c0 r1 c1"
    using foldl_set_add [where f = "\<lambda>x. x" and acc = "preSelection s"]
    by (simp add: handleCellMouseEnter_def Let_def)
  have six: "isSelectionAllowed p \<and> selectedCells s = [] \<longrightarrow>
        selectedCells (handleCellMouseEnter 4 1 (handleCellMouseDown p 2 2 shiftKey False s)) =
          [Cell_ref 2 1, Cell_ref 2 2, Cell_ref 3 1, Cell_ref 3 2, Cell_ref 4 1, Cell_ref 4 2]"
    by (simp add: handleCellMouseEnter_def handleCellMouseDown_def Let_def drag_2_2_to_4_1 set_add_def)
  from set_getRectangularSelection distinct_getRectangularSelection down enter drag_2_2_to_4_1 six
  show ?thesis by blast
qed

theorem drag_selects_rectangle_witness:
  "selectedCells (handleCellMouseEnter 4 1 (handleCellMouseDown all_on 2 2 False False init_state)) =
     [Cell_ref 2 1, Cell_ref 2 2, Cell_ref 3 1, Cell_ref 3 2, Cell_ref 4 1, Cell_ref 4 2]
   \<and> set (selectedCells (handleCellMouseEnter 4 1
            (handleCellMouseDown all_on 2 2 False False single_selection))) =
       {Cell_ref 1 1, Cell_ref 2 1, Cell_ref 2 2, Cell_ref 3 1, Cell_ref 3 2, Cell_ref 4 1, Cell_ref 4 2}"
proof -
  have allowed: "isSelectionAllowed all_on" by (simp add: isSelectionAllowed_def all_on_def)
  have empty: "selectedCells init_state = []" by (simp add: init_state_def)
  have a: "selectedCells (handleCellMouseEnter 4 1 (handleCellMouseDown all_on 2 2 False False init_state)) =
     [Cell_ref 2 1, Cell_ref 2 2, Cell_ref 3 1, Cell_ref 3 2, Cell_ref 4 1, Cell_ref 4 2]"
    using drag_selects_rectangle [of 2 2 4 1 all_on False init_state] allowed empty by simp
  let ?d = "handleCellMouseDown all_on 2 2 False False single_selection"
  have d: "isDragging ?d \<and> dragStartCell ?d = Some (2, 2) \<and> preSelection ?d = [Cell_ref 1 1]"
    using drag_selects_rectangle [of 2 2 4 1 all_on False single_selection] allowed
    by (simp add: single_selection_def)
  have b: "set (selectedCells (handleCellMouseEnter 4 1 ?d)) =
       {Cell_ref 1 1, Cell_ref 2 1, Cell_ref 2 2, Cell_ref 3 1, Cell_ref 3 2, Cell_ref 4 1, Cell_ref 4 2}"
    using drag_selects_rectangle [of 2 2 4 1 all_on False ?d] d by simp
  from a b show ?thesis by simp
qed

subsection \<open>Statistics\<close>

text \<open>
  Claim C6. The recomputed statistics are: \<open>total\<close> the number of cells of the grid,
  \<open>blocked\<close> the number of cells with \<^verbatim>\<open>isBlocked\<close>, \<open>merged\<close> the number of cells with
  \<^verbatim>\<open>isMerged\<close> that are not hidden (the anchor counts, the hidden members do not), and
  \<open>blank\<close> the number of cells with \<^verbatim>\<open>isBlank\<close> that are not hidden. Every event that
  changes the grid publishes the statistics of the grid it leaves behind, and once the
  published statistics are those of the grid they stay so along any sequence of events.
\<close>

theorem statistics_consistent:
  "totalCells (updateCellStatistics rows) = length (all_cells rows)
   \<and> blockedCells (updateCellStatistics rows) = length (filter (\<lambda>c. isBlocked c) (all_cells rows))
   \<and> mergedCells (updateCellStatistics rows) =
       length (filter (\<lambda>c. isMerged c \<and> \<not> isHidden c) (all_cells rows))
   \<and> blankCells (updateCellStatistics rows) =
       length (filter (\<lambda>c. isBlank c \<and> \<not> isHidden c) (all_cells rows))
   \<and> (tableRows (perform p s e) \<noteq> tableRows s \<longrightarrow>
        statistics (perform p s e) = Some (updateCellStatistics (tableRows (perform p s e))))
   \<and> (statistics s = Some (updateCellStatistics (tableRows s)) \<longrightarrow>
        statistics (foldl (perform p) s es) =
          Some (updateCellStatistics (tableRows (foldl (perform p) s es))))"
proof -
  have counts: "totalCells (updateCellStatistics rows) = length (all_cells rows)"
    "blockedCells (updateCellStatistics rows) = length (filter (\<lambda>c. isBlocked c) (all_cells rows))"
    "mergedCells (updateCellStatistics rows) =
       length (filter (\<lambda>c. isMerged c \<and> \<not> isHidden c) (all_cells rows))"
    "blankCells (updateCellStatistics rows) =
       length (filter (\<lambda>c. isBlank c \<and> \<not> isHidden c) (all_cells rows))"
    by (simp_all add: updateCellStatistics_def count_over_rows total_over_rows)
  have one: "tableRows (perform p s e) \<noteq> tableRows s \<longrightarrow>
        statistics (perform p s e) = Some (updateCellStatistics (tableRows (perform p s e)))"
    using perform_statistics [of p s e] by (auto simp: statistics_current_def)
  have run: "statistics s = Some (updateCellStatistics (tableRows s)) \<longrightarrow>
        statistics (foldl (perform p) s es) =
          Some (updateCellStatistics (tableRows (foldl (perform p) s es)))"
    using run_keeps_current [of s p es] by (simp add: statistics_current_def)
  from counts one run show ?thesis by blast
qed

theorem statistics_consistent_witness:
  "statistics (perform all_on merged_row (ToggleCheckbox 1 1)) =
     Some \<lparr>totalCells = 4, blockedCells = 2, mergedCells = 1, blankCells = 0\<rparr>"
proof -
  let ?s = "perform all_on merged_row (ToggleCheckbox 1 1)"
  have changed: "tableRows ?s \<noteq> tableRows merged_row"
    by code_simp
  have len: "length (all_cells (tableRows ?s)) = 4"
    by code_simp
  have b: "length (filter (\<lambda>c. isBlocked c) (all_cells (tableRows ?s))) = 2"
    by code_simp
  have m: "length (filter (\<lambda>c. isMerged c \<and> \<not> isHidden c) (all_cells (tableRows ?s))) = 1"
    by code_simp
  have k: "length (filter (\<lambda>c. isBlank c \<and> \<not> isHidden c) (all_cells (tableRows ?s))) = 0"
    by code_simp
  from statistics_consistent [of "tableRows ?s" all_on merged_row "ToggleCheckbox 1 1" "[]"]
    changed len b m k
  have "statistics ?s = Some (updateCellStatistics (tableRows ?s))"
    and "updateCellStatistics (tableRows ?s) =
      \<lparr>totalCells = 4, blockedCells = 2, mergedCells = 1, blankCells = 0\<rparr>"
    by simp_all
  then show ?thesis by simp
qed

subsection \<open>Blank and unblank\<close>

text \<open>
  Claim C8. For every non-empty selection, \<^verbatim>\<open>blankSelectedCells\<close> sets and
  \<^verbatim>\<open>unblankSelectedCells\<close> clears \<^verbatim>\<open>isBlank\<close> on each selected cell that exists and is not
  hidden, and on every cell that carries that cell's (non-empty) merge id. Identifiers
  of hidden or missing cells are skipped and the rest of the batch is processed: the
  resulting grid is the one obtained from the selection without those identifiers. Both
  operations end with an empty selection and selection mode off.
\<close>

theorem blank_unblank_selection:
  assumes ne: "selectedCells s \<noteq> []"
  shows "selectedCells (blankSelectedCells s) = [] \<and> \<not> isSelectionMode (blankSelectedCells s)
     \<and> selectedCells (unblankSelectedCells s) = [] \<and> \<not> isSelectionMode (unblankSelectedCells s)
     \<and> (\<forall>ref \<in> set (selectedCells s). \<forall>cell.
          find_cell (tableRows s) (fst (position_of ref)) (snd (position_of ref)) = Some cell
          \<and> \<not> isHidden cell \<longrightarrow>
            (\<exists>x. find_cell (tableRows (blankSelectedCells s))
                    (fst (position_of ref)) (snd (position_of ref)) = Some x \<and> isBlank x)
          \<and> (mergeId cell \<noteq> [] \<longrightarrow>
               (\<forall>x \<in> set (all_cells (tableRows (blankSelectedCells s))).
                  mergeId x = mergeId cell \<longrightarrow> isBlank x))
          \<and> (\<exists>x. find_cell (tableRows (unblankSelectedCells s))
                    (fst (position_of ref)) (snd (position_of ref)) = Some x \<and> \<not> isBlank x)
          \<and> (mergeId cell \<noteq> [] \<longrightarrow>
               (\<forall>x \<in> set (all_cells (tableRows (unblankSelectedCells s))).
                  mergeId x = mergeId cell \<longrightarrow> \<not> isBlank x)))
     \<and> tableRows (blankSelectedCells s) =
         tableRows (blankSelectedCells
           (s\<lparr>selectedCells := filter (addresses_visible_cell (tableRows s)) (selectedCells s)\<rparr>))
     \<and> tableRows (unblankSelectedCells s) =
         tableRows (unblankSelectedCells
           (s\<lparr>selectedCells := filter (addresses_visible_cell (tableRows s)) (selectedCells s)\<rparr>))"
proof -
  have cleared: "selectedCells (blankSelectedCells s) = [] \<and> \<not> isSelectionMode (blankSelectedCells s)
     \<and> selectedCells (unblankSelectedCells s) = [] \<and> \<not> isSelectionMode (unblankSelectedCells s)"
    using ne by (simp add: blankSelectedCells_def unblankSelectedCells_def Let_def)
  have each: "(\<exists>x. find_cell (tableRows (blankSelectedCells s))
                    (fst (position_of ref)) (snd (position_of ref)) = Some x \<and> isBlank x)
          \<and> (mergeId cell \<noteq> [] \<longrightarrow>
               (\<forall>x \<in> set (all_cells (tableRows (blankSelectedCells s))).
                  mergeId x = mergeId cell \<longrightarrow> isBlank x))
          \<and> (\<exists>x. find_cell (tableRows (unblankSelectedCells s))
                    (fst (position_of ref)) (snd (position_of ref)) = Some x \<and> \<not> isBlank x)
          \<and> (mergeId cell \<noteq> [] \<longrightarrow>
               (\<forall>x \<in> set (all_cells (tableRows (unblankSelectedCells s))).
                  mergeId x = mergeId cell \<longrightarrow> \<not> isBlank x))"
    if mem: "ref \<in> set (selectedCells s)"
      and found: "find_cell (tableRows s) (fst (position_of ref)) (snd (position_of ref)) = Some cell"
      and vis: "\<not> isHidden cell"
    for ref cell
  proof -
    have pos: "position_of ref = (fst (position_of ref), snd (position_of ref))" by simp
    from foldl_blank_step_selected [OF mem pos found vis, of True]
      foldl_blank_step_selected [OF mem pos found vis, of False]
    show ?thesis
      by (simp add: tableRows_blank_any group_blank_def)
  qed
  have skip: "tableRows (blankSelectedCells s) =
         tableRows (blankSelectedCells
           (s\<lparr>selectedCells := filter (addresses_visible_cell (tableRows s)) (selectedCells s)\<rparr>))"
    "tableRows (unblankSelectedCells s) =
         tableRows (unblankSelectedCells
           (s\<lparr>selectedCells := filter (addresses_visible_cell (tableRows s)) (selectedCells s)\<rparr>))"
    using foldl_blank_step_filter [of True "tableRows s" "selectedCells s"]
      foldl_blank_step_filter [of False "tableRows s" "selectedCells s"]
    by (simp_all add: tableRows_blank_any)
  from cleared each skip show ?thesis by blast
qed

theorem blank_unblank_selection_witness:
  "selectedCells (blankSelectedCells hidden_and_plain) = []
   \<and> \<not> isSelectionMode (blankSelectedCells hidden_and_plain)
   \<and> (\<exists>x. find_cell (tableRows (blankSelectedCells hidden_and_plain)) 2 1 = Some x \<and> isBlank x)
   \<and> tableRows (blankSelectedCells hidden_and_plain) =
       tableRows (blankSelectedCells (hidden_and_plain\<lparr>selectedCells := [Cell_ref 2 1]\<rparr>))
   \<and> list_all (\<lambda>x. mergeId x = ''1112'' \<longrightarrow> isBlank x)
        (all_cells (tableRows (blankSelectedCells anchor_selected)))
   \<and> list_all (\<lambda>x. mergeId x = ''1112'' \<longrightarrow> \<not> isBlank x)
        (all_cells (tableRows (unblankSelectedCells anchor_selected)))"
proof -
  have ne1: "selectedCells hidden_and_plain \<noteq> []" by (simp add: hidden_and_plain_facts)
  have ne2: "selectedCells anchor_selected \<noteq> []" by (simp add: anchor_selected_facts)
  note t1 = blank_unblank_selection [OF ne1]
  note t2 = blank_unblank_selection [OF ne2]
  from t1 have a: "selectedCells (blankSelectedCells hidden_and_plain) = []
      \<and> \<not> isSelectionMode (blankSelectedCells hidden_and_plain)"
    by blast
  from t1 have "\<forall>ref \<in> set (selectedCells hidden_and_plain). \<forall>cell.
      find_cell (tableRows hidden_and_plain) (fst (position_of ref)) (snd (position_of ref)) = Some cell
      \<and> \<not> isHidden cell \<longrightarrow>
      (\<exists>x. find_cell (tableRows (blankSelectedCells hidden_and_plain))
              (fst (position_of ref)) (snd (position_of ref)) = Some x \<and> isBlank x)"
    by blast
  then have b: "\<exists>x. find_cell (tableRows (blankSelectedCells hidden_and_plain)) 2 1 = Some x \<and> isBlank x"
    by (simp add: hidden_and_plain_facts default_cell_def)
  from t1 have "tableRows (blankSelectedCells hidden_and_plain) =
       tableRows (blankSelectedCells (hidden_and_plain\<lparr>selectedCells :=
         filter (addresses_visible_cell (tableRows hidden_and_plain)) (selectedCells hidden_and_plain)\<rparr>))"
    by blast
  then have c: "tableRows (blankSelectedCells hidden_and_plain) =
       tableRows (blankSelectedCells (hidden_and_plain\<lparr>selectedCells := [Cell_ref 2 1]\<rparr>))"
    by (simp only: hidden_and_plain_facts)
  from t2 have "\<forall>ref \<in> set (selectedCells anchor_selected). \<forall>cell.
      find_cell (tableRows anchor_selected) (fst (position_of ref)) (snd (position_of ref)) = Some cell
      \<and> \<not> isHidden cell \<longrightarrow>
      (mergeId cell \<noteq> [] \<longrightarrow>
         (\<forall>x \<in> set (all_cells (tableRows (blankSelectedCells anchor_selected))).
            mergeId x = mergeId cell \<longrightarrow> isBlank x))
      \<and> (mergeId cell \<noteq> [] \<longrightarrow>
         (\<forall>x \<in> set (all_cells (tableRows (unblankSelectedCells anchor_selected))).
            mergeId x = mergeId cell \<longrightarrow> \<not> isBlank x))"
    by blast
  then have d: "list_all (\<lambda>x. mergeId x = ''1112'' \<longrightarrow> isBlank x)
        (all_cells (tableRows (blankSelectedCells anchor_selected)))
      \<and> list_all (\<lambda>x. mergeId x = ''1112'' \<longrightarrow> \<not> isBlank x)
        (all_cells (tableRows (unblankSelectedCells anchor_selected)))"
    by (simp add: anchor_selected_facts default_cell_def list_all_iff)
  from a b c d show ?thesis by blast
qed

subsection \<open>Save and reload\<close>

text \<open>
  Claim C1 says that decoding the encoded snapshot of any grid reproduces every cell's
  persisted fields. The code breaks this for an empty text value: the grid whose single
  cell the user has emptied is saved with the value \<open>""\<close> and loads back with the value
  \<open>"-"\<close>, because \<^verbatim>\<open>cell.sequenceNumber || "-"\<close> takes the default for the empty string
  as for an absent field.
\<close>

theorem cleared_value_lost_on_reload:
  "lastSavedData cleared_cell = Some (encode (tableRows cleared_cell) 1 1)
   \<and> map sequenceNumber (all_cells (tableRows cleared_cell)) = [[]]
   \<and> map sequenceNumber (all_cells (tableRows (loadData (lastSavedData cleared_cell) init_state))) =
       [''-'']"
  by code_simp

subsection \<open>Dimension bounds at the entry points\<close>

text \<open>
  Claim C5 says that every entry point, snapshot decode included, leaves
  \<open>1 \<le> rows, columns \<le> 100\<close>. The loader only tests \<^verbatim>\<open>rows > 0\<close> and
  \<^verbatim>\<open>columns > 0\<close>: a component mounted with a host row count of 101 generates and saves
  a grid of 101 rows, and loading that snapshot sets the row count to 101 and installs the
  101 rows.
\<close>

theorem loadData_accepts_101_rows:
  "length (tableRows (mountEffect (mounted_with (Some 101) (Some 1)))) = 101
   \<and> lastSavedData (mountEffect (mounted_with (Some 101) (Some 1))) = Some oversized_snapshot
   \<and> rowCount (loadData (Some oversized_snapshot) init_state) = 101
   \<and> length (tableRows (loadData (Some oversized_snapshot) init_state)) = 101
   \<and> \<not> dimensions_ok (loadData (Some oversized_snapshot) init_state)"
  by code_simp

end
